theory Spec2Isabelle
  imports Main "HOL-Library.Word"
begin

unbundle bit_operations_syntax

section \<open>Virtual GICv2 distributor: data model\<close>

text \<open>
  A shallow embedding of \<^verbatim>\<open>libsel4vm/src/arch/arm/vgic/virq.h\<close> and
  \<^verbatim>\<open>libsel4vm/src/arch/arm/vgic/vdist.h\<close>.

  Conventions.
  \<^item> A C pointer to a \<^verbatim>\<open>struct virq_handle\<close> is a \<open>virq_handle option\<close>; \<open>None\<close> is
    \<^verbatim>\<open>NULL\<close>. Handles are values: after \<^verbatim>\<open>virq_init\<close> their fields never change.
  \<^item> C arrays are total functions from the index; an index is a \<open>nat\<close>. Interrupt
    numbers and vCPU identifiers are \<open>nat\<close> as well: the code only ever computes them
    as non-negative values, and a vCPU identifier always names one of the banks
    (the \<^verbatim>\<open>assert(vcpu_id < CONFIG_MAX_NUM_NODES)\<close> of \<^verbatim>\<open>virq_get_sgi_ppi\<close>).
  \<^item> A failed \<^verbatim>\<open>assert\<close> aborts the monitor: functions that can reach one return an
    \<open>option\<close>, and \<open>None\<close> is the abort.
  \<^item> \<^verbatim>\<open>uint32_t\<close> is \<open>32 word\<close>, \<^verbatim>\<open>uint16_t\<close> is \<open>16 word\<close>; \<^verbatim>\<open>size_t\<close> ring indices are
    \<open>nat\<close> (they are always reduced with \<^verbatim>\<open>& (MAX_IRQ_QUEUE_LEN - 1)\<close>, and the
    word size is a multiple of the ring size).
\<close>

type_synonym u32 = "32 word"
type_synonym u16 = "16 word"

subsection \<open>Constants of \<^verbatim>\<open>virq.h\<close>\<close>

abbreviation (input) MAX_VIRQS :: nat where "MAX_VIRQS \<equiv> 200"
abbreviation (input) NUM_SGI_VIRQS :: nat where "NUM_SGI_VIRQS \<equiv> 16"
abbreviation (input) NUM_PPI_VIRQS :: nat where "NUM_PPI_VIRQS \<equiv> 16"
abbreviation (input) GIC_SPI_IRQ_MIN :: nat where "GIC_SPI_IRQ_MIN \<equiv> NUM_SGI_VIRQS + NUM_PPI_VIRQS"
abbreviation (input) NUM_LIST_REGS :: nat where "NUM_LIST_REGS \<equiv> 4"
abbreviation (input) MAX_IRQ_QUEUE_LEN :: nat where "MAX_IRQ_QUEUE_LEN \<equiv> 64"

definition IRQ_QUEUE_NEXT :: "nat \<Rightarrow> nat" where
  "IRQ_QUEUE_NEXT i = (i + 1) AND (MAX_IRQ_QUEUE_LEN - 1)"

subsection \<open>Register offsets\<close>

text \<open>
  Modelled from the spec: the header that defines the \<^verbatim>\<open>GIC_DIST_*\<close> offsets, the SGIR
  field masks and \<^verbatim>\<open>GIC_ENABLED\<close> is not among the sources. The spec fixes the
  bit-exact GICv2 register layout (CTLR 0x000, TYPER 0x004, IIDR 0x008, ISENABLER1
  0x104, ISPENDR1 0x204, ICPENDR0 0x280, SGIR 0xF00, the SGIR fields at bits 25:24,
  23:16 and 3:0); the remaining offsets are the GICv2 ones, which are also the only
  values that fit between the literal reserved ranges of the two switch statements.
\<close>

abbreviation (input) GIC_DIST_CTLR :: int where "GIC_DIST_CTLR \<equiv> 0x000"
abbreviation (input) GIC_DIST_TYPER :: int where "GIC_DIST_TYPER \<equiv> 0x004"
abbreviation (input) GIC_DIST_IIDR :: int where "GIC_DIST_IIDR \<equiv> 0x008"
abbreviation (input) GIC_DIST_IGROUPR0 :: int where "GIC_DIST_IGROUPR0 \<equiv> 0x080"
abbreviation (input) GIC_DIST_IGROUPR1 :: int where "GIC_DIST_IGROUPR1 \<equiv> 0x084"
abbreviation (input) GIC_DIST_IGROUPRN :: int where "GIC_DIST_IGROUPRN \<equiv> 0x0FC"
abbreviation (input) GIC_DIST_ISENABLER0 :: int where "GIC_DIST_ISENABLER0 \<equiv> 0x100"
abbreviation (input) GIC_DIST_ISENABLER1 :: int where "GIC_DIST_ISENABLER1 \<equiv> 0x104"
abbreviation (input) GIC_DIST_ISENABLERN :: int where "GIC_DIST_ISENABLERN \<equiv> 0x17C"
abbreviation (input) GIC_DIST_ICENABLER0 :: int where "GIC_DIST_ICENABLER0 \<equiv> 0x180"
abbreviation (input) GIC_DIST_ICENABLER1 :: int where "GIC_DIST_ICENABLER1 \<equiv> 0x184"
abbreviation (input) GIC_DIST_ICENABLERN :: int where "GIC_DIST_ICENABLERN \<equiv> 0x1FC"
abbreviation (input) GIC_DIST_ISPENDR0 :: int where "GIC_DIST_ISPENDR0 \<equiv> 0x200"
abbreviation (input) GIC_DIST_ISPENDR1 :: int where "GIC_DIST_ISPENDR1 \<equiv> 0x204"
abbreviation (input) GIC_DIST_ISPENDRN :: int where "GIC_DIST_ISPENDRN \<equiv> 0x27C"
abbreviation (input) GIC_DIST_ICPENDR0 :: int where "GIC_DIST_ICPENDR0 \<equiv> 0x280"
abbreviation (input) GIC_DIST_ICPENDR1 :: int where "GIC_DIST_ICPENDR1 \<equiv> 0x284"
abbreviation (input) GIC_DIST_ICPENDRN :: int where "GIC_DIST_ICPENDRN \<equiv> 0x2FC"
abbreviation (input) GIC_DIST_ISACTIVER0 :: int where "GIC_DIST_ISACTIVER0 \<equiv> 0x300"
abbreviation (input) GIC_DIST_ISACTIVER1 :: int where "GIC_DIST_ISACTIVER1 \<equiv> 0x304"
abbreviation (input) GIC_DIST_ISACTIVERN :: int where "GIC_DIST_ISACTIVERN \<equiv> 0x37C"
abbreviation (input) GIC_DIST_ICACTIVER0 :: int where "GIC_DIST_ICACTIVER0 \<equiv> 0x380"
abbreviation (input) GIC_DIST_ICACTIVER1 :: int where "GIC_DIST_ICACTIVER1 \<equiv> 0x384"
abbreviation (input) GIC_DIST_ICACTIVERN :: int where "GIC_DIST_ICACTIVERN \<equiv> 0x3FC"
abbreviation (input) GIC_DIST_IPRIORITYR0 :: int where "GIC_DIST_IPRIORITYR0 \<equiv> 0x400"
abbreviation (input) GIC_DIST_IPRIORITYR7 :: int where "GIC_DIST_IPRIORITYR7 \<equiv> 0x41C"
abbreviation (input) GIC_DIST_IPRIORITYR8 :: int where "GIC_DIST_IPRIORITYR8 \<equiv> 0x420"
abbreviation (input) GIC_DIST_IPRIORITYRN :: int where "GIC_DIST_IPRIORITYRN \<equiv> 0x7F8"
abbreviation (input) GIC_DIST_ITARGETSR0 :: int where "GIC_DIST_ITARGETSR0 \<equiv> 0x800"
abbreviation (input) GIC_DIST_ITARGETSR7 :: int where "GIC_DIST_ITARGETSR7 \<equiv> 0x81C"
abbreviation (input) GIC_DIST_ITARGETSR8 :: int where "GIC_DIST_ITARGETSR8 \<equiv> 0x820"
abbreviation (input) GIC_DIST_ITARGETSRN :: int where "GIC_DIST_ITARGETSRN \<equiv> 0xBF8"
abbreviation (input) GIC_DIST_ICFGR0 :: int where "GIC_DIST_ICFGR0 \<equiv> 0xC00"
abbreviation (input) GIC_DIST_ICFGRN :: int where "GIC_DIST_ICFGRN \<equiv> 0xCFC"
abbreviation (input) GIC_DIST_SGIR :: int where "GIC_DIST_SGIR \<equiv> 0xF00"
abbreviation (input) GIC_DIST_CPENDSGIR0 :: int where "GIC_DIST_CPENDSGIR0 \<equiv> 0xF10"
abbreviation (input) GIC_DIST_CPENDSGIRN :: int where "GIC_DIST_CPENDSGIRN \<equiv> 0xF1C"
abbreviation (input) GIC_DIST_SPENDSGIR0 :: int where "GIC_DIST_SPENDSGIR0 \<equiv> 0xF20"
abbreviation (input) GIC_DIST_SPENDSGIRN :: int where "GIC_DIST_SPENDSGIRN \<equiv> 0xF2C"

abbreviation (input) GIC_ENABLED :: u32 where "GIC_ENABLED \<equiv> 1"

abbreviation (input) GIC_DIST_SGI_TARGET_LIST_FILTER_SHIFT :: nat where
  "GIC_DIST_SGI_TARGET_LIST_FILTER_SHIFT \<equiv> 24"
abbreviation (input) GIC_DIST_SGI_TARGET_LIST_FILTER_MASK :: u32 where
  "GIC_DIST_SGI_TARGET_LIST_FILTER_MASK \<equiv> push_bit GIC_DIST_SGI_TARGET_LIST_FILTER_SHIFT 0x3"
abbreviation (input) GIC_DIST_SGI_TARGET_LIST_SPEC :: u32 where "GIC_DIST_SGI_TARGET_LIST_SPEC \<equiv> 0"
abbreviation (input) GIC_DIST_SGI_TARGET_LIST_OTHERS :: u32 where "GIC_DIST_SGI_TARGET_LIST_OTHERS \<equiv> 1"
abbreviation (input) GIC_DIST_SGI_TARGET_SELF :: u32 where "GIC_DIST_SGI_TARGET_SELF \<equiv> 2"
abbreviation (input) GIC_DIST_SGI_CPU_TARGET_LIST_SHIFT :: nat where
  "GIC_DIST_SGI_CPU_TARGET_LIST_SHIFT \<equiv> 16"
abbreviation (input) GIC_DIST_SGI_CPU_TARGET_LIST_MASK :: u32 where
  "GIC_DIST_SGI_CPU_TARGET_LIST_MASK \<equiv> push_bit GIC_DIST_SGI_CPU_TARGET_LIST_SHIFT 0xFF"
abbreviation (input) GIC_DIST_SGI_INTID_MASK :: u32 where "GIC_DIST_SGI_INTID_MASK \<equiv> 0xF"

text \<open>The macros of \<^verbatim>\<open>vdist.h\<close>. \<^verbatim>\<open>RANGE32(a, b)\<close> is the case range \<^verbatim>\<open>a ... b + 3\<close>.\<close>

definition GIC_DIST_REGN :: "int \<Rightarrow> int \<Rightarrow> nat" where
  "GIC_DIST_REGN offset reg = nat ((offset - reg) div 4)"

definition RANGE32 :: "int \<Rightarrow> int \<Rightarrow> int \<Rightarrow> bool" where
  "RANGE32 a b offset \<longleftrightarrow> a \<le> offset \<and> offset \<le> b + 3"

definition IRQ_IDX :: "nat \<Rightarrow> nat" where
  "IRQ_IDX irq = irq div 32"

definition IRQ_BIT :: "nat \<Rightarrow> u32" where
  "IRQ_BIT irq = push_bit (irq mod 32) 1"

subsection \<open>The distributor shadow\<close>

text \<open>
  The declaration of \<^verbatim>\<open>struct gic_dist_map\<close> is not among the sources; the record has
  exactly the fields the two fault handlers and the accessors use, with the index
  structure they use them with. Banks ending in \<open>0\<close> are indexed by the vCPU.
\<close>

record gic_dist_map =
  enable :: u32
  ic_type :: u32
  dist_ident :: u32
  irq_group0 :: "nat \<Rightarrow> u32"
  irq_group :: "nat \<Rightarrow> u32"
  enable_set0 :: "nat \<Rightarrow> u32"
  enable_set :: "nat \<Rightarrow> u32"
  enable_clr0 :: "nat \<Rightarrow> u32"
  enable_clr :: "nat \<Rightarrow> u32"
  pending_set0 :: "nat \<Rightarrow> u32"
  pending_set :: "nat \<Rightarrow> u32"
  pending_clr0 :: "nat \<Rightarrow> u32"
  pending_clr :: "nat \<Rightarrow> u32"
  active0 :: "nat \<Rightarrow> u32"
  active :: "nat \<Rightarrow> u32"
  active_clr0 :: "nat \<Rightarrow> u32"
  active_clr :: "nat \<Rightarrow> u32"
  priority0 :: "nat \<Rightarrow> nat \<Rightarrow> u32"
  priority :: "nat \<Rightarrow> u32"
  targets0 :: "nat \<Rightarrow> nat \<Rightarrow> u32"
  targets :: "nat \<Rightarrow> u32"
  config :: "nat \<Rightarrow> u32"
  spi :: "nat \<Rightarrow> u32"
  sgi_control :: u32
  sgi_pending_clr :: "nat \<Rightarrow> nat \<Rightarrow> u32"
  sgi_pending_set :: "nat \<Rightarrow> nat \<Rightarrow> u32"
  periph_id :: "nat \<Rightarrow> u32"

subsection \<open>Handlers, queues and the vGIC aggregate\<close>

record virq_handle =
  virq :: nat
  ack :: nat
  token :: nat

record irq_queue =
  irqs :: "nat \<Rightarrow> virq_handle option"
  head :: nat
  tail :: nat

text \<open>
  \<^verbatim>\<open>struct vgic\<close>. The field \<open>registers\<close> is the distributor shadow that
  \<^verbatim>\<open>priv_get_dist\<close> returns. \<open>acked\<close> is not a field of the C struct: it records, in
  order, the calls of the external acknowledge callbacks made by \<^verbatim>\<open>virq_ack\<close>.
\<close>

record vgic =
  lr_shadow :: "nat \<Rightarrow> nat \<Rightarrow> virq_handle option"
  irq_queue :: "nat \<Rightarrow> irq_queue"
  sgi_ppi_irq :: "nat \<Rightarrow> nat \<Rightarrow> virq_handle option"
  virqs :: "nat \<Rightarrow> virq_handle option"
  registers :: gic_dist_map
  acked :: "(nat \<times> virq_handle) list"


section \<open>\<^verbatim>\<open>virq.h\<close>: handler tables, list-register shadow and overflow queue\<close>

definition virq_init :: "nat \<Rightarrow> nat \<Rightarrow> nat \<Rightarrow> virq_handle" where
  "virq_init irq ack_fn tok = \<lparr>virq = irq, ack = ack_fn, token = tok\<rparr>"

text \<open>
  Modelled from the spec: the acknowledge callback is an external collaborator; the
  core "invokes the handler's ack callback with (vcpu, virq, token)". The call is
  recorded in \<open>acked\<close> and has no other effect on the vGIC.
\<close>

definition virq_ack :: "vgic \<Rightarrow> nat \<Rightarrow> virq_handle \<Rightarrow> vgic" where
  "virq_ack vg vcpu irq = vg\<lparr>acked := acked vg @ [(vcpu, irq)]\<rparr>"

definition virq_get_sgi_ppi :: "vgic \<Rightarrow> nat \<Rightarrow> nat \<Rightarrow> virq_handle option" where
  "virq_get_sgi_ppi vg vcpu q = sgi_ppi_irq vg vcpu q"

text \<open>The \<^verbatim>\<open>for\<close> loop of \<^verbatim>\<open>virq_find_spi_irq_data\<close>, from index \<open>i\<close> on.\<close>

function virq_find_spi_from :: "vgic \<Rightarrow> nat \<Rightarrow> nat \<Rightarrow> virq_handle option" where
  "virq_find_spi_from vg q i =
     (if i < MAX_VIRQS then
        (case virqs vg i of
           Some h \<Rightarrow> if virq h = q then Some h else virq_find_spi_from vg q (Suc i)
         | None \<Rightarrow> virq_find_spi_from vg q (Suc i))
      else None)"
  by pat_completeness auto
termination
  by (relation "measure (\<lambda>(vg, q, i). MAX_VIRQS - i)") auto

declare virq_find_spi_from.simps [simp del]

definition virq_find_spi_irq_data :: "vgic \<Rightarrow> nat \<Rightarrow> virq_handle option" where
  "virq_find_spi_irq_data vg q = virq_find_spi_from vg q 0"

definition virq_find_irq_data :: "vgic \<Rightarrow> nat \<Rightarrow> nat \<Rightarrow> virq_handle option" where
  "virq_find_irq_data vg vcpu q =
     (if q < GIC_SPI_IRQ_MIN then virq_get_sgi_ppi vg vcpu q
      else virq_find_spi_irq_data vg q)"

text \<open>The \<^verbatim>\<open>for\<close> loop of \<^verbatim>\<open>virq_spi_add\<close>, from index \<open>i\<close> on.\<close>

function virq_spi_add_from :: "vgic \<Rightarrow> virq_handle \<Rightarrow> nat \<Rightarrow> int \<times> vgic" where
  "virq_spi_add_from vg virq_data i =
     (if i < MAX_VIRQS then
        (if virqs vg i = None then (0, vg\<lparr>virqs := (virqs vg)(i := Some virq_data)\<rparr>)
         else virq_spi_add_from vg virq_data (Suc i))
      else (-1, vg))"
  by pat_completeness auto
termination
  by (relation "measure (\<lambda>(vg, h, i). MAX_VIRQS - i)") auto

declare virq_spi_add_from.simps [simp del]

definition virq_spi_add :: "vgic \<Rightarrow> virq_handle \<Rightarrow> int \<times> vgic" where
  "virq_spi_add vg virq_data = virq_spi_add_from vg virq_data 0"

definition virq_sgi_ppi_add :: "nat \<Rightarrow> vgic \<Rightarrow> virq_handle \<Rightarrow> int \<times> vgic" where
  "virq_sgi_ppi_add vcpu vg virq_data =
     (if sgi_ppi_irq vg vcpu (virq virq_data) \<noteq> None then (-1, vg)
      else (0, vg\<lparr>sgi_ppi_irq :=
                    (sgi_ppi_irq vg)(vcpu := (sgi_ppi_irq vg vcpu)(virq virq_data := Some virq_data))\<rparr>))"

definition virq_add :: "nat \<Rightarrow> vgic \<Rightarrow> virq_handle \<Rightarrow> int \<times> vgic" where
  "virq_add vcpu vg virq_data =
     (let q = virq virq_data in
      if q < GIC_SPI_IRQ_MIN then virq_sgi_ppi_add vcpu vg virq_data
      else virq_spi_add vg virq_data)"

definition vgic_shadow_irq :: "vgic \<Rightarrow> nat \<Rightarrow> virq_handle option \<Rightarrow> nat \<Rightarrow> vgic" where
  "vgic_shadow_irq vg i irq vcpu =
     vg\<lparr>lr_shadow := (lr_shadow vg)(vcpu := (lr_shadow vg vcpu)(i := irq))\<rparr>"

definition vgic_irq_enqueue :: "vgic \<Rightarrow> nat \<Rightarrow> virq_handle option \<Rightarrow> int \<times> vgic" where
  "vgic_irq_enqueue vg vcpu irq =
     (let q = irq_queue vg vcpu in
      if IRQ_QUEUE_NEXT (tail q) = head q then (-1, vg)
      else (0, vg\<lparr>irq_queue := (irq_queue vg)
                    (vcpu := q\<lparr>irqs := (irqs q)(tail q := irq), tail := IRQ_QUEUE_NEXT (tail q)\<rparr>)\<rparr>))"

definition vgic_irq_dequeue :: "vgic \<Rightarrow> nat \<Rightarrow> virq_handle option \<times> vgic" where
  "vgic_irq_dequeue vg vcpu =
     (let q = irq_queue vg vcpu in
      if head q \<noteq> tail q
      then (irqs q (head q),
            vg\<lparr>irq_queue := (irq_queue vg)(vcpu := q\<lparr>head := IRQ_QUEUE_NEXT (head q)\<rparr>)\<rparr>)
      else (None, vg))"

text \<open>The \<^verbatim>\<open>for\<close> loop of \<^verbatim>\<open>vgic_find_empty_list_reg\<close>, from index \<open>i\<close> on.\<close>

function vgic_find_empty_list_reg_from :: "vgic \<Rightarrow> nat \<Rightarrow> nat \<Rightarrow> int" where
  "vgic_find_empty_list_reg_from vg vcpu i =
     (if i < NUM_LIST_REGS then
        (if lr_shadow vg vcpu i = None then int i
         else vgic_find_empty_list_reg_from vg vcpu (Suc i))
      else -1)"
  by pat_completeness auto
termination
  by (relation "measure (\<lambda>(vg, vcpu, i). NUM_LIST_REGS - i)") auto

declare vgic_find_empty_list_reg_from.simps [simp del]

definition vgic_find_empty_list_reg :: "vgic \<Rightarrow> nat \<Rightarrow> int" where
  "vgic_find_empty_list_reg vg vcpu = vgic_find_empty_list_reg_from vg vcpu 0"

text \<open>
  Modelled from the spec: \<^verbatim>\<open>vgic_vcpu_load_list_reg\<close> is only declared in \<^verbatim>\<open>virq.h\<close>. It
  "programs the hardware and records in \<open>lr_shadow\<close>", and its "return code propagates
  back to the caller". The outcome of the hypercall is an input of the model: \<open>hc vcpu
  idx irq\<close> is the code the hypervisor answers with.
\<close>

type_synonym hypercall = "nat \<Rightarrow> nat \<Rightarrow> virq_handle \<Rightarrow> int"

definition vgic_vcpu_load_list_reg :: "hypercall \<Rightarrow> vgic \<Rightarrow> nat \<Rightarrow> nat \<Rightarrow> virq_handle \<Rightarrow> int \<times> vgic" where
  "vgic_vcpu_load_list_reg hc vg vcpu idx irq =
     (hc vcpu idx irq, vgic_shadow_irq vg idx (Some irq) vcpu)"

section \<open>\<^verbatim>\<open>vdist.h\<close>: bit accessors of the distributor shadow\<close>

text \<open>The flag that the C code calls \<^verbatim>\<open>set_pending\<close> or \<^verbatim>\<open>set_enable\<close> is \<open>val\<close> here.\<close>

definition set_sgi_ppi_pending :: "gic_dist_map \<Rightarrow> nat \<Rightarrow> bool \<Rightarrow> nat \<Rightarrow> gic_dist_map" where
  "set_sgi_ppi_pending gic_dist irq val vcpu_id =
     (if val then
        gic_dist\<lparr>pending_set0 := (pending_set0 gic_dist)(vcpu_id := pending_set0 gic_dist vcpu_id OR IRQ_BIT irq),
                 pending_clr0 := (pending_clr0 gic_dist)(vcpu_id := pending_clr0 gic_dist vcpu_id OR IRQ_BIT irq)\<rparr>
      else
        gic_dist\<lparr>pending_set0 := (pending_set0 gic_dist)(vcpu_id := pending_set0 gic_dist vcpu_id AND NOT (IRQ_BIT irq)),
                 pending_clr0 := (pending_clr0 gic_dist)(vcpu_id := pending_clr0 gic_dist vcpu_id AND NOT (IRQ_BIT irq))\<rparr>)"

definition set_spi_pending :: "gic_dist_map \<Rightarrow> nat \<Rightarrow> bool \<Rightarrow> gic_dist_map" where
  "set_spi_pending gic_dist irq val =
     (if val then
        gic_dist\<lparr>pending_set := (pending_set gic_dist)(IRQ_IDX irq := pending_set gic_dist (IRQ_IDX irq) OR IRQ_BIT irq),
                 pending_clr := (pending_clr gic_dist)(IRQ_IDX irq := pending_clr gic_dist (IRQ_IDX irq) OR IRQ_BIT irq)\<rparr>
      else
        gic_dist\<lparr>pending_set := (pending_set gic_dist)(IRQ_IDX irq := pending_set gic_dist (IRQ_IDX irq) AND NOT (IRQ_BIT irq)),
                 pending_clr := (pending_clr gic_dist)(IRQ_IDX irq := pending_clr gic_dist (IRQ_IDX irq) AND NOT (IRQ_BIT irq))\<rparr>)"

definition set_pending :: "gic_dist_map \<Rightarrow> nat \<Rightarrow> bool \<Rightarrow> nat \<Rightarrow> gic_dist_map" where
  "set_pending gic_dist irq val vcpu_id =
     (if irq < GIC_SPI_IRQ_MIN then set_sgi_ppi_pending gic_dist irq val vcpu_id
      else set_spi_pending gic_dist irq val)"

definition is_sgi_ppi_pending :: "gic_dist_map \<Rightarrow> nat \<Rightarrow> nat \<Rightarrow> bool" where
  "is_sgi_ppi_pending gic_dist irq vcpu_id \<longleftrightarrow> pending_set0 gic_dist vcpu_id AND IRQ_BIT irq \<noteq> 0"

definition is_spi_pending :: "gic_dist_map \<Rightarrow> nat \<Rightarrow> bool" where
  "is_spi_pending gic_dist irq \<longleftrightarrow> pending_set gic_dist (IRQ_IDX irq) AND IRQ_BIT irq \<noteq> 0"

definition is_pending :: "gic_dist_map \<Rightarrow> nat \<Rightarrow> nat \<Rightarrow> bool" where
  "is_pending gic_dist irq vcpu_id =
     (if irq < GIC_SPI_IRQ_MIN then is_sgi_ppi_pending gic_dist irq vcpu_id
      else is_spi_pending gic_dist irq)"

definition set_sgi_ppi_enable :: "gic_dist_map \<Rightarrow> nat \<Rightarrow> bool \<Rightarrow> nat \<Rightarrow> gic_dist_map" where
  "set_sgi_ppi_enable gic_dist irq val vcpu_id =
     (if val then
        gic_dist\<lparr>enable_set0 := (enable_set0 gic_dist)(vcpu_id := enable_set0 gic_dist vcpu_id OR IRQ_BIT irq),
                 enable_clr0 := (enable_clr0 gic_dist)(vcpu_id := enable_clr0 gic_dist vcpu_id OR IRQ_BIT irq)\<rparr>
      else
        gic_dist\<lparr>enable_set0 := (enable_set0 gic_dist)(vcpu_id := enable_set0 gic_dist vcpu_id AND NOT (IRQ_BIT irq)),
                 enable_clr0 := (enable_clr0 gic_dist)(vcpu_id := enable_clr0 gic_dist vcpu_id AND NOT (IRQ_BIT irq))\<rparr>)"

definition set_spi_enable :: "gic_dist_map \<Rightarrow> nat \<Rightarrow> bool \<Rightarrow> gic_dist_map" where
  "set_spi_enable gic_dist irq val =
     (if val then
        gic_dist\<lparr>enable_set := (enable_set gic_dist)(IRQ_IDX irq := enable_set gic_dist (IRQ_IDX irq) OR IRQ_BIT irq),
                 enable_clr := (enable_clr gic_dist)(IRQ_IDX irq := enable_clr gic_dist (IRQ_IDX irq) OR IRQ_BIT irq)\<rparr>
      else
        gic_dist\<lparr>enable_set := (enable_set gic_dist)(IRQ_IDX irq := enable_set gic_dist (IRQ_IDX irq) AND NOT (IRQ_BIT irq)),
                 enable_clr := (enable_clr gic_dist)(IRQ_IDX irq := enable_clr gic_dist (IRQ_IDX irq) AND NOT (IRQ_BIT irq))\<rparr>)"

definition set_enable :: "gic_dist_map \<Rightarrow> nat \<Rightarrow> bool \<Rightarrow> nat \<Rightarrow> gic_dist_map" where
  "set_enable gic_dist irq val vcpu_id =
     (if irq < GIC_SPI_IRQ_MIN then set_sgi_ppi_enable gic_dist irq val vcpu_id
      else set_spi_enable gic_dist irq val)"

definition is_sgi_ppi_enabled :: "gic_dist_map \<Rightarrow> nat \<Rightarrow> nat \<Rightarrow> bool" where
  "is_sgi_ppi_enabled gic_dist irq vcpu_id \<longleftrightarrow> enable_set0 gic_dist vcpu_id AND IRQ_BIT irq \<noteq> 0"

definition is_spi_enabled :: "gic_dist_map \<Rightarrow> nat \<Rightarrow> bool" where
  "is_spi_enabled gic_dist irq \<longleftrightarrow> enable_set gic_dist (IRQ_IDX irq) AND IRQ_BIT irq \<noteq> 0"

definition is_enabled :: "gic_dist_map \<Rightarrow> nat \<Rightarrow> nat \<Rightarrow> bool" where
  "is_enabled gic_dist irq vcpu_id =
     (if irq < GIC_SPI_IRQ_MIN then is_sgi_ppi_enabled gic_dist irq vcpu_id
      else is_spi_enabled gic_dist irq)"

definition is_sgi_ppi_active :: "gic_dist_map \<Rightarrow> nat \<Rightarrow> nat \<Rightarrow> bool" where
  "is_sgi_ppi_active gic_dist irq vcpu_id \<longleftrightarrow> active0 gic_dist vcpu_id AND IRQ_BIT irq \<noteq> 0"

definition is_spi_active :: "gic_dist_map \<Rightarrow> nat \<Rightarrow> bool" where
  "is_spi_active gic_dist irq \<longleftrightarrow> active gic_dist (IRQ_IDX irq) AND IRQ_BIT irq \<noteq> 0"

definition is_active :: "gic_dist_map \<Rightarrow> nat \<Rightarrow> nat \<Rightarrow> bool" where
  "is_active gic_dist irq vcpu_id =
     (if irq < GIC_SPI_IRQ_MIN then is_sgi_ppi_active gic_dist irq vcpu_id
      else is_spi_active gic_dist irq)"

text \<open>
  Modelled from the spec: \<^verbatim>\<open>gic_dist_enable\<close>, \<^verbatim>\<open>gic_dist_disable\<close> and
  \<^verbatim>\<open>gic_dist_is_enabled\<close> are not among the sources; they "toggle \<open>ctlr\<close>", the word
  that a read of CTLR returns (the field \<open>enable\<close>).
\<close>

definition gic_dist_enable :: "gic_dist_map \<Rightarrow> gic_dist_map" where
  "gic_dist_enable gic_dist = gic_dist\<lparr>enable := 1\<rparr>"

definition gic_dist_disable :: "gic_dist_map \<Rightarrow> gic_dist_map" where
  "gic_dist_disable gic_dist = gic_dist\<lparr>enable := 0\<rparr>"

definition gic_dist_is_enabled :: "gic_dist_map \<Rightarrow> bool" where
  "gic_dist_is_enabled gic_dist \<longleftrightarrow> enable gic_dist \<noteq> 0"

section \<open>\<^verbatim>\<open>vdist.h\<close>: the semantic operations\<close>

definition vgic_dist_enable :: "gic_dist_map \<Rightarrow> int \<times> gic_dist_map" where
  "vgic_dist_enable gic_dist = (0, gic_dist_enable gic_dist)"

definition vgic_dist_disable :: "gic_dist_map \<Rightarrow> int \<times> gic_dist_map" where
  "vgic_dist_disable gic_dist = (0, gic_dist_disable gic_dist)"

text \<open>
  In the C code \<^verbatim>\<open>gic_dist\<close> is a pointer into the \<^verbatim>\<open>vgic\<close>; here the operations that
  also need the \<^verbatim>\<open>vgic\<close> read and write its field \<open>registers\<close>.
\<close>

definition vgic_dist_enable_irq :: "vgic \<Rightarrow> nat \<Rightarrow> nat \<Rightarrow> int \<times> vgic" where
  "vgic_dist_enable_irq vg vcpu irq =
     (let virq_data = virq_find_irq_data vg vcpu irq;
          vg1 = vg\<lparr>registers := set_enable (registers vg) irq True vcpu\<rparr>
      in case virq_data of
           Some h \<Rightarrow>
             if \<not> is_pending (registers vg1) (virq h) vcpu then (0, virq_ack vg1 vcpu h)
             else (0, vg1)
         | None \<Rightarrow> (0, vg1))"

definition vgic_dist_disable_irq :: "gic_dist_map \<Rightarrow> nat \<Rightarrow> nat \<Rightarrow> int \<times> gic_dist_map" where
  "vgic_dist_disable_irq gic_dist vcpu irq =
     (if irq \<ge> NUM_SGI_VIRQS then (0, set_enable gic_dist irq False vcpu)
      else (0, gic_dist))"

text \<open>
  \<open>None\<close> is the failed \<^verbatim>\<open>assert(virq)\<close> after the dequeue. \<^verbatim>\<open>ZF_LOGF\<close> only logs; the
  function then returns \<open>-1\<close>.
\<close>

definition vgic_dist_set_pending_irq :: "hypercall \<Rightarrow> vgic \<Rightarrow> nat \<Rightarrow> nat \<Rightarrow> (int \<times> vgic) option" where
  "vgic_dist_set_pending_irq hc vg vcpu irq =
     (let gic_dist = registers vg;
          virq_data = virq_find_irq_data vg vcpu irq
      in case virq_data of
           None \<Rightarrow> Some (-1, vg)
         | Some h \<Rightarrow>
             if \<not> gic_dist_is_enabled gic_dist \<or> \<not> is_enabled gic_dist irq vcpu then Some (-1, vg)
             else if is_pending gic_dist (virq h) vcpu then Some (0, vg)
             else
               (let vg1 = vg\<lparr>registers := set_pending gic_dist (virq h) True vcpu\<rparr>;
                    (err, vg2) = vgic_irq_enqueue vg1 vcpu (Some h)
                in if err \<noteq> 0 then Some (-1, vg2)
                   else
                     (let idx = vgic_find_empty_list_reg vg2 vcpu
                      in if idx < 0 then Some (0, vg2)
                         else
                           (case vgic_irq_dequeue vg2 vcpu of
                              (None, vg3) \<Rightarrow> None
                            | (Some v, vg3) \<Rightarrow>
                                Some (vgic_vcpu_load_list_reg hc vg3 vcpu (nat idx) v)))))"

definition vgic_dist_clr_pending_irq :: "gic_dist_map \<Rightarrow> nat \<Rightarrow> nat \<Rightarrow> int \<times> gic_dist_map" where
  "vgic_dist_clr_pending_irq gic_dist vcpu irq = (0, set_pending gic_dist irq False vcpu)"

text \<open>
  Modelled from the spec: \<^verbatim>\<open>vm_inject_irq\<close> is not among the sources; the public
  injection entry point "is a synonym for \<open>set_pending_irq\<close>".
\<close>

definition vm_inject_irq :: "hypercall \<Rightarrow> vgic \<Rightarrow> nat \<Rightarrow> nat \<Rightarrow> (int \<times> vgic) option" where
  "vm_inject_irq hc vg vcpu irq = vgic_dist_set_pending_irq hc vg vcpu irq"


section \<open>The fault object and the VM\<close>

text \<open>
  Modelled from the spec: the fault object API is an external collaborator
  (\<^verbatim>\<open>fault_get_address\<close>, \<^verbatim>\<open>fault_get_data\<close>, \<^verbatim>\<open>fault_get_data_mask\<close>,
  \<^verbatim>\<open>fault_set_data\<close>, \<^verbatim>\<open>fault_is_read\<close>, \<^verbatim>\<open>advance_fault\<close>, \<^verbatim>\<open>ignore_fault\<close>, and
  \<^verbatim>\<open>fault_emulate\<close>, which "computes \<open>(prev & ~mask) | (data & mask)\<close>"). A fault carries
  the faulting address, the data register, the data mask and the direction. Both
  \<^verbatim>\<open>advance_fault\<close> and \<^verbatim>\<open>ignore_fault\<close> resume the guest and return a status that the
  handlers test; the status each of them will answer is an input of the model
  (\<open>advance_status\<close>, \<open>ignore_status\<close>) and \<open>fault_stage\<close> records which of the two the
  handler called.
\<close>

datatype fault_stage = FAULT_OPEN | FAULT_ADVANCED | FAULT_IGNORED

record fault =
  fault_address :: int
  fault_data :: u32
  fault_data_mask :: u32
  fault_read :: bool
  fault_stage :: fault_stage
  advance_status :: int
  ignore_status :: int

definition fault_get_address :: "fault \<Rightarrow> int" where
  "fault_get_address f = fault_address f"

definition fault_get_data :: "fault \<Rightarrow> u32" where
  "fault_get_data f = fault_data f"

definition fault_get_data_mask :: "fault \<Rightarrow> u32" where
  "fault_get_data_mask f = fault_data_mask f"

definition fault_set_data :: "fault \<Rightarrow> u32 \<Rightarrow> fault" where
  "fault_set_data f d = f\<lparr>fault_data := d\<rparr>"

definition fault_is_read :: "fault \<Rightarrow> bool" where
  "fault_is_read f = fault_read f"

definition advance_fault :: "fault \<Rightarrow> int \<times> fault" where
  "advance_fault f = (advance_status f, f\<lparr>fault_stage := FAULT_ADVANCED\<rparr>)"

definition ignore_fault :: "fault \<Rightarrow> int \<times> fault" where
  "ignore_fault f = (ignore_status f, f\<lparr>fault_stage := FAULT_IGNORED\<rparr>)"

definition fault_emulate :: "fault \<Rightarrow> u32 \<Rightarrow> u32" where
  "fault_emulate f prev = (prev AND NOT (fault_data_mask f)) OR (fault_data f AND fault_data_mask f)"

datatype memory_fault_result = FAULT_HANDLED | FAULT_ERROR

text \<open>
  Modelled from the spec: of the VM the SGIR dispatch consumes \<^verbatim>\<open>vcpu->vm->num_vcpus\<close>,
  \<^verbatim>\<open>vcpu->vm->vcpus[i]\<close> and \<^verbatim>\<open>is_vcpu_online\<close>. The vCPU at index \<open>i\<close> is the vCPU
  with identifier \<open>i\<close>.
\<close>

record vm =
  num_vcpus :: nat
  is_vcpu_online :: "nat \<Rightarrow> bool"

section \<open>\<^verbatim>\<open>vdist.h\<close>: the read fault handler\<close>

text \<open>
  The cases at \<^verbatim>\<open>0xD00\<close> and \<^verbatim>\<open>0xFC0\<close> read a word at a byte offset from the start of
  an array of words. On the little-endian ARM targets of the library that is the word
  itself at an aligned offset, and otherwise the bytes of two neighbouring words.
\<close>

definition read_u32_at :: "(nat \<Rightarrow> u32) \<Rightarrow> nat \<Rightarrow> u32" where
  "read_u32_at bank off =
     (let i = off div 4; k = off mod 4
      in if k = 0 then bank i
         else drop_bit (8 * k) (bank i) OR push_bit (32 - 8 * k) (bank (Suc i)))"

text \<open>
  The \<^verbatim>\<open>switch\<close> of \<^verbatim>\<open>handle_vgic_dist_read_fault\<close>: \<open>Some reg\<close> when a case matches,
  \<open>None\<close> for the \<^verbatim>\<open>default\<close> case.
\<close>

definition vgic_dist_read_reg :: "gic_dist_map \<Rightarrow> nat \<Rightarrow> int \<Rightarrow> u32 option" where
  "vgic_dist_read_reg gic_dist vcpu_id offset =
    (if RANGE32 GIC_DIST_CTLR GIC_DIST_CTLR offset then Some (enable gic_dist)
     else if RANGE32 GIC_DIST_TYPER GIC_DIST_TYPER offset then Some (ic_type gic_dist)
     else if RANGE32 GIC_DIST_IIDR GIC_DIST_IIDR offset then Some (dist_ident gic_dist)
     else if RANGE32 0x00C 0x01C offset then Some 0
     else if RANGE32 0x020 0x03C offset then Some 0
     else if RANGE32 0x040 0x07C offset then Some 0
     else if RANGE32 GIC_DIST_IGROUPR0 GIC_DIST_IGROUPR0 offset then Some (irq_group0 gic_dist vcpu_id)
     else if RANGE32 GIC_DIST_IGROUPR1 GIC_DIST_IGROUPRN offset
       then Some (irq_group gic_dist (GIC_DIST_REGN offset GIC_DIST_IGROUPR1))
     else if RANGE32 GIC_DIST_ISENABLER0 GIC_DIST_ISENABLER0 offset then Some (enable_set0 gic_dist vcpu_id)
     else if RANGE32 GIC_DIST_ISENABLER1 GIC_DIST_ISENABLERN offset
       then Some (enable_set gic_dist (GIC_DIST_REGN offset GIC_DIST_ISENABLER1))
     else if RANGE32 GIC_DIST_ICENABLER0 GIC_DIST_ICENABLER0 offset then Some (enable_clr0 gic_dist vcpu_id)
     else if RANGE32 GIC_DIST_ICENABLER1 GIC_DIST_ICENABLERN offset
       then Some (enable_clr gic_dist (GIC_DIST_REGN offset GIC_DIST_ICENABLER1))
     else if RANGE32 GIC_DIST_ISPENDR0 GIC_DIST_ISPENDR0 offset then Some (pending_set0 gic_dist vcpu_id)
     else if RANGE32 GIC_DIST_ISPENDR1 GIC_DIST_ISPENDRN offset
       then Some (pending_set gic_dist (GIC_DIST_REGN offset GIC_DIST_ISPENDR1))
     else if RANGE32 GIC_DIST_ICPENDR0 GIC_DIST_ICPENDR0 offset then Some (pending_clr0 gic_dist vcpu_id)
     else if RANGE32 GIC_DIST_ICPENDR1 GIC_DIST_ICPENDRN offset
       then Some (pending_clr gic_dist (GIC_DIST_REGN offset GIC_DIST_ICPENDR1))
     else if RANGE32 GIC_DIST_ISACTIVER0 GIC_DIST_ISACTIVER0 offset then Some (active0 gic_dist vcpu_id)
     else if RANGE32 GIC_DIST_ISACTIVER1 GIC_DIST_ISACTIVERN offset
       then Some (active gic_dist (GIC_DIST_REGN offset GIC_DIST_ISACTIVER1))
     else if RANGE32 GIC_DIST_ICACTIVER0 GIC_DIST_ICACTIVER0 offset then Some (active_clr0 gic_dist vcpu_id)
     else if RANGE32 GIC_DIST_ICACTIVER1 GIC_DIST_ICACTIVERN offset
       then Some (active_clr gic_dist (GIC_DIST_REGN offset GIC_DIST_ICACTIVER1))
     else if RANGE32 GIC_DIST_IPRIORITYR0 GIC_DIST_IPRIORITYR7 offset
       then Some (priority0 gic_dist vcpu_id (GIC_DIST_REGN offset GIC_DIST_IPRIORITYR0))
     else if RANGE32 GIC_DIST_IPRIORITYR8 GIC_DIST_IPRIORITYRN offset
       then Some (priority gic_dist (GIC_DIST_REGN offset GIC_DIST_IPRIORITYR8))
     else if RANGE32 0x7FC 0x7FC offset then Some 0
     else if RANGE32 GIC_DIST_ITARGETSR0 GIC_DIST_ITARGETSR7 offset
       then Some (targets0 gic_dist vcpu_id (GIC_DIST_REGN offset GIC_DIST_ITARGETSR0))
     else if RANGE32 GIC_DIST_ITARGETSR8 GIC_DIST_ITARGETSRN offset
       then Some (targets gic_dist (GIC_DIST_REGN offset GIC_DIST_ITARGETSR8))
     else if RANGE32 0xBFC 0xBFC offset then Some 0
     else if RANGE32 GIC_DIST_ICFGR0 GIC_DIST_ICFGRN offset
       then Some (config gic_dist (GIC_DIST_REGN offset GIC_DIST_ICFGR0))
     else if RANGE32 0xD00 0xDE4 offset then Some (read_u32_at (spi gic_dist) (nat (offset - 0xD00)))
     else if RANGE32 0xDE8 0xEFC offset then Some 0
     else if RANGE32 GIC_DIST_SGIR GIC_DIST_SGIR offset then Some (sgi_control gic_dist)
     else if RANGE32 0xF04 0xF0C offset then Some 0
     else if RANGE32 GIC_DIST_CPENDSGIR0 GIC_DIST_CPENDSGIRN offset
       then Some (sgi_pending_clr gic_dist vcpu_id (GIC_DIST_REGN offset GIC_DIST_CPENDSGIR0))
     else if RANGE32 GIC_DIST_SPENDSGIR0 GIC_DIST_SPENDSGIRN offset
       then Some (sgi_pending_set gic_dist vcpu_id (GIC_DIST_REGN offset GIC_DIST_SPENDSGIR0))
     else if RANGE32 0xF30 0xFBC offset then Some 0
     else if RANGE32 0xFC0 0xFFB offset then Some (read_u32_at (periph_id gic_dist) (nat (offset - 0xFC0)))
     else None)"

text \<open>
  \<open>pstart\<close> is \<^verbatim>\<open>d->pstart\<close>, \<open>vg\<close> the \<^verbatim>\<open>vgic\<close> of the device, \<open>fault\<close> the fault of the
  vCPU. The handler returns its result and the fault as it leaves it.
\<close>

definition handle_vgic_dist_read_fault :: "int \<Rightarrow> vgic \<Rightarrow> nat \<Rightarrow> fault \<Rightarrow> memory_fault_result \<times> fault" where
  "handle_vgic_dist_read_fault pstart vg vcpu_id fault =
     (let gic_dist = registers vg;
          offset = fault_get_address fault - pstart
      in case vgic_dist_read_reg gic_dist vcpu_id offset of
           None \<Rightarrow>
             (let (err, f1) = ignore_fault fault
              in (if err \<noteq> 0 then FAULT_ERROR else FAULT_HANDLED, f1))
         | Some reg \<Rightarrow>
             (let mask = fault_get_data_mask fault;
                  f1 = fault_set_data fault (reg AND mask);
                  (err, f2) = advance_fault f1
              in (if err \<noteq> 0 then FAULT_ERROR else FAULT_HANDLED, f2)))"


section \<open>\<^verbatim>\<open>vdist.h\<close>: the write fault handler\<close>

text \<open>
  Modelled from the spec: \<^verbatim>\<open>CTZ\<close> is \<open>count_trailing_zeros\<close>, the index of the lowest
  set bit of a 32-bit word; \<open>ctz_from w i k\<close> looks for it among the \<open>k\<close> bits from \<open>i\<close>
  upwards.
\<close>

fun ctz_from :: "u32 \<Rightarrow> nat \<Rightarrow> nat \<Rightarrow> nat" where
  "ctz_from w i 0 = i"
| "ctz_from w i (Suc k) = (if bit w i then i else ctz_from w (Suc i) k)"

definition CTZ :: "u32 \<Rightarrow> nat" where
  "CTZ w = ctz_from w 0 32"

lemma ctz_from_bit:
  "\<exists>j. i \<le> j \<and> j < i + k \<and> bit w j \<Longrightarrow> bit w (ctz_from w i k) \<and> ctz_from w i k < i + k"
proof (induction k arbitrary: i)
  case 0
  then show ?case by auto
next
  case (Suc k)
  show ?case
  proof (cases "bit w i")
    case True
    then show ?thesis by simp
  next
    case False
    from Suc.prems obtain j where j: "i \<le> j" "j < i + Suc k" "bit w j" by blast
    with False have "j \<noteq> i" by auto
    with j have "\<exists>j. Suc i \<le> j \<and> j < Suc i + k \<and> bit w j" by (intro exI[of _ j]) auto
    from Suc.IH[OF this] False show ?thesis by simp
  qed
qed

lemma CTZ_bit:
  assumes "w \<noteq> 0"
  shows "bit w (CTZ w) \<and> CTZ w < 32"
proof -
  from assms obtain j where "bit w j" by (auto simp: bit_eq_iff)
  moreover from this have "j < 32" by (auto dest: bit_imp_le_length)
  ultimately have "\<exists>j. 0 \<le> j \<and> j < 0 + 32 \<and> bit w j" by auto
  from ctz_from_bit[OF this] show ?thesis by (simp add: CTZ_def)
qed

lemma clear_bit_less:
  fixes w :: u32
  assumes "bit w n"
  shows "w AND NOT (push_bit n 1) < w"
proof -
  have "w AND NOT (push_bit n 1) \<le> w" by (rule word_and_le2)
  moreover have "w AND NOT (push_bit n 1) \<noteq> w"
  proof
    assume "w AND NOT (push_bit n 1) = w"
    then have "bit (w AND NOT (push_bit n 1)) n = bit w n" by simp
    with assms show False by (simp add: bit_simps)
  qed
  ultimately show ?thesis by simp
qed

text \<open>
  The loop of the four bit-iterated registers:
  \<^verbatim>\<open>while (data) { irq = CTZ(data); data &= ~(1U << irq); irq += off; op(irq); }\<close>.
  \<open>f\<close> is the loop body after the bit has been cleared, applied to the bit index; it
  returns \<open>None\<close> when the operation aborts.
\<close>

function for_each_set_bit :: "(nat \<Rightarrow> 's \<Rightarrow> 's option) \<Rightarrow> u32 \<Rightarrow> 's \<Rightarrow> 's option" where
  "for_each_set_bit f data s =
     (if data = 0 then Some s
      else (let irq = CTZ data;
                data' = data AND NOT (push_bit irq 1)
            in case f irq s of
                 None \<Rightarrow> None
               | Some s' \<Rightarrow> for_each_set_bit f data' s'))"
  by pat_completeness auto
termination
  by (relation "measure (\<lambda>(f, data, s). unat data)")
     (auto simp: unat_mono clear_bit_less [simplified] CTZ_bit)

declare for_each_set_bit.simps [simp del]

text \<open>
  The SGIR case. \<^verbatim>\<open>target_list\<close> is a \<^verbatim>\<open>uint16_t\<close>: the values assigned to it are
  truncated to 16 bits. \<open>None\<close> is the \<^verbatim>\<open>default\<close> case of the inner switch, which
  leaves through \<^verbatim>\<open>goto ignore_fault\<close>.
\<close>

definition sgir_target_list :: "vm \<Rightarrow> nat \<Rightarrow> u32 \<Rightarrow> u16 option" where
  "sgir_target_list m vcpu_id data =
     (let mode = drop_bit GIC_DIST_SGI_TARGET_LIST_FILTER_SHIFT
                   (data AND GIC_DIST_SGI_TARGET_LIST_FILTER_MASK)
      in if mode = GIC_DIST_SGI_TARGET_LIST_SPEC
           then Some (ucast (drop_bit GIC_DIST_SGI_CPU_TARGET_LIST_SHIFT
                               (data AND GIC_DIST_SGI_CPU_TARGET_LIST_MASK)))
         else if mode = GIC_DIST_SGI_TARGET_LIST_OTHERS
           then Some ((push_bit (num_vcpus m) 1 - 1) AND NOT (push_bit vcpu_id 1))
         else if mode = GIC_DIST_SGI_TARGET_SELF
           then Some (push_bit vcpu_id 1)
         else None)"

text \<open>The \<^verbatim>\<open>for\<close> loop of the SGIR case, from vCPU index \<open>i\<close> on.\<close>

function sgir_forward :: "hypercall \<Rightarrow> vm \<Rightarrow> u16 \<Rightarrow> nat \<Rightarrow> nat \<Rightarrow> vgic \<Rightarrow> vgic option" where
  "sgir_forward hc m target_list q i vg =
     (if i < num_vcpus m then
        (if \<not> bit target_list i \<or> \<not> is_vcpu_online m i
         then sgir_forward hc m target_list q (Suc i) vg
         else (case vm_inject_irq hc vg i q of
                 None \<Rightarrow> None
               | Some (err, vg') \<Rightarrow> sgir_forward hc m target_list q (Suc i) vg'))
      else Some vg)"
  by pat_completeness auto
termination
  by (relation "measure (\<lambda>(hc, m, target_list, q, i, vg). num_vcpus m - i)") auto

declare sgir_forward.simps [simp del]

text \<open>
  The \<^verbatim>\<open>switch\<close> of \<^verbatim>\<open>handle_vgic_dist_write_fault\<close>. \<open>None\<close> is the failed
  \<^verbatim>\<open>assert(!"vgic SGI reg not implemented!")\<close>; every other path reaches the label
  \<^verbatim>\<open>ignore_fault\<close> with the \<^verbatim>\<open>vgic\<close> that is returned.
\<close>

definition vgic_dist_write_reg :: "hypercall \<Rightarrow> vm \<Rightarrow> vgic \<Rightarrow> nat \<Rightarrow> int \<Rightarrow> fault \<Rightarrow> vgic option" where
  "vgic_dist_write_reg hc m vg vcpu_id offset fault =
    (let gic_dist = registers vg;
         mask = fault_get_data_mask fault
     in
     if RANGE32 GIC_DIST_CTLR GIC_DIST_CTLR offset then
       (let data = fault_get_data fault
        in if data = GIC_ENABLED then Some (vg\<lparr>registers := snd (vgic_dist_enable gic_dist)\<rparr>)
           else if data = 0 then Some (vg\<lparr>registers := snd (vgic_dist_disable gic_dist)\<rparr>)
           else Some vg)
     else if RANGE32 GIC_DIST_TYPER GIC_DIST_TYPER offset then Some vg
     else if RANGE32 GIC_DIST_IIDR GIC_DIST_IIDR offset then Some vg
     else if RANGE32 0x00C 0x01C offset then Some vg
     else if RANGE32 0x020 0x03C offset then Some vg
     else if RANGE32 0x040 0x07C offset then Some vg
     else if RANGE32 GIC_DIST_IGROUPR0 GIC_DIST_IGROUPR0 offset then
       Some (vg\<lparr>registers := gic_dist\<lparr>irq_group0 := (irq_group0 gic_dist)
               (vcpu_id := fault_emulate fault (irq_group0 gic_dist vcpu_id))\<rparr>\<rparr>)
     else if RANGE32 GIC_DIST_IGROUPR1 GIC_DIST_IGROUPRN offset then
       (let reg_offset = GIC_DIST_REGN offset GIC_DIST_IGROUPR1
        in Some (vg\<lparr>registers := gic_dist\<lparr>irq_group := (irq_group gic_dist)
                  (reg_offset := fault_emulate fault (irq_group gic_dist reg_offset))\<rparr>\<rparr>))
     else if RANGE32 GIC_DIST_ISENABLER0 GIC_DIST_ISENABLERN offset then
       for_each_set_bit
         (\<lambda>irq vg. Some (snd (vgic_dist_enable_irq vg vcpu_id
                                (irq + nat ((offset - GIC_DIST_ISENABLER0) * 8)))))
         (fault_get_data fault AND mask) vg
     else if RANGE32 GIC_DIST_ICENABLER0 GIC_DIST_ICENABLERN offset then
       for_each_set_bit
         (\<lambda>irq vg. Some (vg\<lparr>registers := snd (vgic_dist_disable_irq (registers vg) vcpu_id
                                (irq + nat ((offset - GIC_DIST_ICENABLER0) * 8)))\<rparr>))
         (fault_get_data fault AND mask) vg
     else if RANGE32 GIC_DIST_ISPENDR0 GIC_DIST_ISPENDRN offset then
       for_each_set_bit
         (\<lambda>irq vg. map_option snd (vgic_dist_set_pending_irq hc vg vcpu_id
                                (irq + nat ((offset - GIC_DIST_ISPENDR0) * 8))))
         (fault_get_data fault AND mask) vg
     else if RANGE32 GIC_DIST_ICPENDR0 GIC_DIST_ICPENDRN offset then
       for_each_set_bit
         (\<lambda>irq vg. Some (vg\<lparr>registers := snd (vgic_dist_clr_pending_irq (registers vg) vcpu_id
                                (irq + nat ((offset - 0x280) * 8)))\<rparr>))
         (fault_get_data fault AND mask) vg
     else if RANGE32 GIC_DIST_ISACTIVER0 GIC_DIST_ISACTIVER0 offset then
       Some (vg\<lparr>registers := gic_dist\<lparr>active0 := (active0 gic_dist)
               (vcpu_id := fault_emulate fault (active0 gic_dist vcpu_id))\<rparr>\<rparr>)
     else if RANGE32 GIC_DIST_ISACTIVER1 GIC_DIST_ISACTIVERN offset then
       (let reg_offset = GIC_DIST_REGN offset GIC_DIST_ISACTIVER1
        in Some (vg\<lparr>registers := gic_dist\<lparr>active := (active gic_dist)
                  (reg_offset := fault_emulate fault (active gic_dist reg_offset))\<rparr>\<rparr>))
     else if RANGE32 GIC_DIST_ICACTIVER0 GIC_DIST_ICACTIVER0 offset then
       Some (vg\<lparr>registers := gic_dist\<lparr>active_clr0 := (active_clr0 gic_dist)
               (vcpu_id := fault_emulate fault (active0 gic_dist vcpu_id))\<rparr>\<rparr>)
     else if RANGE32 GIC_DIST_ICACTIVER1 GIC_DIST_ICACTIVERN offset then
       (let reg_offset = GIC_DIST_REGN offset GIC_DIST_ICACTIVER1
        in Some (vg\<lparr>registers := gic_dist\<lparr>active_clr := (active_clr gic_dist)
                  (reg_offset := fault_emulate fault (active_clr gic_dist reg_offset))\<rparr>\<rparr>))
     else if RANGE32 GIC_DIST_IPRIORITYR0 GIC_DIST_IPRIORITYRN offset then Some vg
     else if RANGE32 0x7FC 0x7FC offset then Some vg
     else if RANGE32 GIC_DIST_ITARGETSR0 GIC_DIST_ITARGETSRN offset then Some vg
     else if RANGE32 0xBFC 0xBFC offset then Some vg
     else if RANGE32 GIC_DIST_ICFGR0 GIC_DIST_ICFGRN offset then Some vg
     else if RANGE32 0xD00 0xDE4 offset then Some vg
     else if RANGE32 0xDE8 0xEFC offset then Some vg
     else if RANGE32 GIC_DIST_SGIR GIC_DIST_SGIR offset then
       (let data = fault_get_data fault;
            q = unat (data AND GIC_DIST_SGI_INTID_MASK)
        in case sgir_target_list m vcpu_id data of
             None \<Rightarrow> Some vg
           | Some target_list \<Rightarrow> sgir_forward hc m target_list q 0 vg)
     else if RANGE32 0xF04 0xF0C offset then Some vg
     else if RANGE32 GIC_DIST_CPENDSGIR0 GIC_DIST_SPENDSGIRN offset then None
     else if RANGE32 0xF30 0xFBC offset then Some vg
     else if RANGE32 0xFC0 0xFFB offset then Some vg
     else Some vg)"

definition handle_vgic_dist_write_fault ::
    "hypercall \<Rightarrow> vm \<Rightarrow> int \<Rightarrow> vgic \<Rightarrow> nat \<Rightarrow> fault \<Rightarrow> (memory_fault_result \<times> fault \<times> vgic) option" where
  "handle_vgic_dist_write_fault hc m pstart vg vcpu_id fault =
     (let offset = fault_get_address fault - pstart
      in case vgic_dist_write_reg hc m vg vcpu_id offset fault of
           None \<Rightarrow> None
         | Some vg' \<Rightarrow>
             (let (err, f1) = ignore_fault fault
              in Some (if err \<noteq> 0 then FAULT_ERROR else FAULT_HANDLED, f1, vg')))"

definition handle_vgic_dist_fault ::
    "hypercall \<Rightarrow> vm \<Rightarrow> int \<Rightarrow> vgic \<Rightarrow> nat \<Rightarrow> fault \<Rightarrow> (memory_fault_result \<times> fault \<times> vgic) option" where
  "handle_vgic_dist_fault hc m pstart vg vcpu_id fault =
     (if fault_is_read fault
      then (let (r, f1) = handle_vgic_dist_read_fault pstart vg vcpu_id fault in Some (r, f1, vg))
      else handle_vgic_dist_write_fault hc m pstart vg vcpu_id fault)"


section \<open>Initial state\<close>

text \<open>
  The all-zero distributor shadow and the \<^verbatim>\<open>vgic\<close> before any registration: every
  table slot, list register and queue slot is \<^verbatim>\<open>NULL\<close>, every ring index is \<open>0\<close>.
\<close>

definition gic_dist_zero :: gic_dist_map where
  "gic_dist_zero =
     \<lparr>enable = 0, ic_type = 0, dist_ident = 0,
      irq_group0 = (\<lambda>_. 0), irq_group = (\<lambda>_. 0),
      enable_set0 = (\<lambda>_. 0), enable_set = (\<lambda>_. 0),
      enable_clr0 = (\<lambda>_. 0), enable_clr = (\<lambda>_. 0),
      pending_set0 = (\<lambda>_. 0), pending_set = (\<lambda>_. 0),
      pending_clr0 = (\<lambda>_. 0), pending_clr = (\<lambda>_. 0),
      active0 = (\<lambda>_. 0), active = (\<lambda>_. 0),
      active_clr0 = (\<lambda>_. 0), active_clr = (\<lambda>_. 0),
      priority0 = (\<lambda>_ _. 0), priority = (\<lambda>_. 0),
      targets0 = (\<lambda>_ _. 0), targets = (\<lambda>_. 0),
      config = (\<lambda>_. 0), spi = (\<lambda>_. 0), sgi_control = 0,
      sgi_pending_clr = (\<lambda>_ _. 0), sgi_pending_set = (\<lambda>_ _. 0),
      periph_id = (\<lambda>_. 0)\<rparr>"

definition irq_queue_empty :: irq_queue where
  "irq_queue_empty = \<lparr>irqs = (\<lambda>_. None), head = 0, tail = 0\<rparr>"

definition vgic_empty :: vgic where
  "vgic_empty =
     \<lparr>lr_shadow = (\<lambda>_ _. None), irq_queue = (\<lambda>_. irq_queue_empty),
      sgi_ppi_irq = (\<lambda>_ _. None), virqs = (\<lambda>_. None),
      registers = gic_dist_zero, acked = []\<rparr>"


section \<open>Invariants, reachable states and example inputs\<close>

text \<open>
  Every SGI/PPI handler sits in the slot whose index is its own \<open>virq\<close> field.
\<close>

definition sgi_ppi_indexed :: "vgic \<Rightarrow> bool" where
  "sgi_ppi_indexed vg \<longleftrightarrow> (\<forall>vcpu q h. sgi_ppi_irq vg vcpu q = Some h \<longrightarrow> virq h = q)"

text \<open>
  The set view and the clear view of the enable and of the pending banks hold the
  same words.
\<close>

definition paired_banks :: "gic_dist_map \<Rightarrow> bool" where
  "paired_banks d \<longleftrightarrow>
     enable_set0 d = enable_clr0 d \<and> enable_set d = enable_clr d \<and>
     pending_set0 d = pending_clr0 d \<and> pending_set d = pending_clr d"

text \<open>
  The states the vGIC can be in: it starts all-zero and empty, and each step is a
  registration, an MMIO fault of a guest (read or write, as far as the handler
  returns), one of the semantic operations, an injection, or a step of the
  maintenance path: a write of the list-register shadow, a dequeue from the overflow
  queue of a vCPU, a load of a list register. The hypercall outcomes, the VM, the
  window base and the fault are arbitrary at each step. \<^verbatim>\<open>vgic_irq_enqueue\<close> is not a step
  of its own: its only caller is \<^verbatim>\<open>vgic_dist_set_pending_irq\<close>.
\<close>

inductive reachable :: "vgic \<Rightarrow> bool" where
  reach_init: "reachable vgic_empty"
| reach_register: "reachable vg \<Longrightarrow> reachable (snd (virq_add vcpu vg virq_data))"
| reach_fault: "reachable vg \<Longrightarrow>
    handle_vgic_dist_fault hc m pstart vg vcpu fault = Some (r, fault', vg') \<Longrightarrow> reachable vg'"
| reach_enable_irq: "reachable vg \<Longrightarrow> reachable (snd (vgic_dist_enable_irq vg vcpu irq))"
| reach_disable_irq: "reachable vg \<Longrightarrow>
    reachable (vg\<lparr>registers := snd (vgic_dist_disable_irq (registers vg) vcpu irq)\<rparr>)"
| reach_set_pending_irq: "reachable vg \<Longrightarrow>
    vgic_dist_set_pending_irq hc vg vcpu irq = Some (r, vg') \<Longrightarrow> reachable vg'"
| reach_clr_pending_irq: "reachable vg \<Longrightarrow>
    reachable (vg\<lparr>registers := snd (vgic_dist_clr_pending_irq (registers vg) vcpu irq)\<rparr>)"
| reach_inject_irq: "reachable vg \<Longrightarrow>
    vm_inject_irq hc vg vcpu irq = Some (r, vg') \<Longrightarrow> reachable vg'"
| reach_shadow_irq: "reachable vg \<Longrightarrow> reachable (vgic_shadow_irq vg idx virq_data vcpu)"
| reach_dequeue: "reachable vg \<Longrightarrow> reachable (snd (vgic_irq_dequeue vg vcpu))"
| reach_load_list_reg: "reachable vg \<Longrightarrow>
    reachable (snd (vgic_vcpu_load_list_reg hc vg vcpu idx irq))"

text \<open>
  Inputs at which the theorems below are instantiated: a \<^verbatim>\<open>vgic\<close> with a handler for
  SPI 42 that is enabled and pending while the distributor is enabled, a guest write
  of \<open>1\<close> to ISACTIVER0, and a VM with one vCPU.
\<close>

definition vgic_example :: vgic where
  "vgic_example =
     vgic_empty\<lparr>virqs := (\<lambda>_. None)(0 := Some (virq_init 42 7 0)),
                registers := gic_dist_zero\<lparr>enable := 1,
                  enable_set := (\<lambda>_. 0)(1 := 0x400), enable_clr := (\<lambda>_. 0)(1 := 0x400),
                  pending_set := (\<lambda>_. 0)(1 := 0x400), pending_clr := (\<lambda>_. 0)(1 := 0x400)\<rparr>\<rparr>"

definition active_write_fault :: fault where
  "active_write_fault =
     \<lparr>fault_address = 0x300, fault_data = 1, fault_data_mask = 0xFFFFFFFF, fault_read = False,
      fault_stage = FAULT_OPEN, advance_status = 0, ignore_status = 0\<rparr>"

definition one_vcpu_vm :: vm where
  "one_vcpu_vm = \<lparr>num_vcpus = 1, is_vcpu_online = (\<lambda>_. True)\<rparr>"

text \<open>
  The reserved and implementation-defined ranges of the read switch:
  \<^verbatim>\<open>RANGE32(0x00C, 0x01C)\<close>, \<^verbatim>\<open>RANGE32(0x020, 0x03C)\<close>, \<^verbatim>\<open>RANGE32(0x040, 0x07C)\<close>,
  \<^verbatim>\<open>RANGE32(0x7FC, 0x7FC)\<close>, \<^verbatim>\<open>RANGE32(0xBFC, 0xBFC)\<close>, \<^verbatim>\<open>RANGE32(0xDE8, 0xEFC)\<close>,
  \<^verbatim>\<open>RANGE32(0xF04, 0xF0C)\<close> and \<^verbatim>\<open>RANGE32(0xF30, 0xFBC)\<close>.
\<close>

definition reserved_read_offset :: "int \<Rightarrow> bool" where
  "reserved_read_offset offset \<longleftrightarrow>
     RANGE32 0x00C 0x01C offset \<or> RANGE32 0x020 0x03C offset \<or> RANGE32 0x040 0x07C offset \<or>
     RANGE32 0x7FC 0x7FC offset \<or> RANGE32 0xBFC 0xBFC offset \<or> RANGE32 0xDE8 0xEFC offset \<or>
     RANGE32 0xF04 0xF0C offset \<or> RANGE32 0xF30 0xFBC offset"

text \<open>A read fault at offset \<open>0x00C\<close> for which \<^verbatim>\<open>advance_fault\<close> will answer \<open>st\<close>.\<close>

definition reserved_read_fault :: "int \<Rightarrow> fault" where
  "reserved_read_fault st =
     \<lparr>fault_address = 0x00C, fault_data = 0x55, fault_data_mask = 0xFFFFFFFF, fault_read = True,
      fault_stage = FAULT_OPEN, advance_status = st, ignore_status = 0\<rparr>"

text \<open>
  The handlers waiting in a ring, oldest first: the slots from \<open>head\<close> up to, not
  including, \<open>tail\<close>, around the ring. A ring is well-formed when both indices are
  inside it.
\<close>

definition queue_list :: "irq_queue \<Rightarrow> virq_handle option list" where
  "queue_list q =
     map (\<lambda>k. irqs q ((head q + k) mod MAX_IRQ_QUEUE_LEN))
       [0..<(tail q + MAX_IRQ_QUEUE_LEN - head q) mod MAX_IRQ_QUEUE_LEN]"

definition queue_ok :: "irq_queue \<Rightarrow> bool" where
  "queue_ok q \<longleftrightarrow> head q < MAX_IRQ_QUEUE_LEN \<and> tail q < MAX_IRQ_QUEUE_LEN"

text \<open>
  Every overflow queue has its indices inside the ring and holds no \<^verbatim>\<open>NULL\<close> among
  its waiting handlers.
\<close>

definition queues_non_null :: "vgic \<Rightarrow> bool" where
  "queues_non_null vg \<longleftrightarrow>
     (\<forall>vcpu. queue_ok (irq_queue vg vcpu) \<and> None \<notin> set (queue_list (irq_queue vg vcpu)))"

text \<open>
  A guest write of \<open>1\<close> to the control register, and a state with a waiting
  interrupt: the handler for SPI 42 occupies the four list registers of vCPU 0 and
  waits once more in its overflow queue.
\<close>

definition ctlr_enable_write :: fault where
  "ctlr_enable_write =
     \<lparr>fault_address = 0x000, fault_data = 1, fault_data_mask = 0xFFFFFFFF, fault_read = False,
      fault_stage = FAULT_OPEN, advance_status = 0, ignore_status = 0\<rparr>"

definition queued_example :: vgic where
  "queued_example =
     vgic_example\<lparr>lr_shadow := (\<lambda>_ _. None)(0 := (\<lambda>_. None)
                     (0 := Some (virq_init 42 7 0), 1 := Some (virq_init 42 7 0),
                      2 := Some (virq_init 42 7 0), 3 := Some (virq_init 42 7 0))),
                  irq_queue := (\<lambda>_. irq_queue_empty)
                     (0 := \<lparr>irqs = (\<lambda>_. None)(0 := Some (virq_init 42 7 0)), head = 0, tail = 1\<rparr>),
                  acked := [(0, virq_init 42 7 0)]\<rparr>"

text \<open>
  States and faults at which the ICENABLER theorems are instantiated: SGI 0 enabled
  on vCPU 0 (and with it PPI 16), a full-word guest write of \<open>w\<close> to ICENABLER0 and a
  full-word guest read of ISENABLER0.
\<close>

definition sgi0_enabled :: vgic where
  "sgi0_enabled =
     vgic_empty\<lparr>registers := gic_dist_zero\<lparr>enable_set0 := (\<lambda>_. 0)(0 := 1),
                                                 enable_clr0 := (\<lambda>_. 0)(0 := 1)\<rparr>\<rparr>"

definition icenabler0_write :: "u32 \<Rightarrow> fault" where
  "icenabler0_write w =
     \<lparr>fault_address = 0x180, fault_data = w, fault_data_mask = 0xFFFFFFFF, fault_read = False,
      fault_stage = FAULT_OPEN, advance_status = 0, ignore_status = 0\<rparr>"

definition isenabler0_read :: fault where
  "isenabler0_read =
     \<lparr>fault_address = 0x100, fault_data = 0, fault_data_mask = 0xFFFFFFFF, fault_read = True,
      fault_stage = FAULT_OPEN, advance_status = 0, ignore_status = 0\<rparr>"

definition sgi0_ppi16_enabled :: vgic where
  "sgi0_ppi16_enabled =
     vgic_empty\<lparr>registers := gic_dist_zero\<lparr>enable_set0 := (\<lambda>_. 0)(0 := 0x10001),
                                                 enable_clr0 := (\<lambda>_. 0)(0 := 0x10001)\<rparr>\<rparr>"

text \<open>
  The target bitmask as the claim words it, an unbounded number: for filter mode SPEC
  bits 23:16 of the written value, for OTHERS \<open>(1 << num_vcpus) - 1\<close> with the bit of the
  requesting vCPU cleared, for SELF the bit of the requesting vCPU alone. The filter
  mode is bits 25:24; \<open>None\<close> is the reserved mode \<open>3\<close>.
\<close>

definition sgir_claimed_mask :: "vm \<Rightarrow> nat \<Rightarrow> u32 \<Rightarrow> nat option" where
  "sgir_claimed_mask m vcpu_id data =
     (let mode = take_bit 2 (drop_bit 24 data)
      in if mode = GIC_DIST_SGI_TARGET_LIST_SPEC then Some (unat (take_bit 8 (drop_bit 16 data)))
         else if mode = GIC_DIST_SGI_TARGET_LIST_OTHERS
           then Some (unset_bit vcpu_id (push_bit (num_vcpus m) 1 - 1))
         else if mode = GIC_DIST_SGI_TARGET_SELF then Some (push_bit vcpu_id 1)
         else None)"

text \<open>
  \<^verbatim>\<open>inject_irq(vcpu, q)\<close> called once for each vCPU of a list, in the order of the list.
\<close>

fun inject_each :: "hypercall \<Rightarrow> nat \<Rightarrow> nat list \<Rightarrow> vgic \<Rightarrow> vgic option" where
  "inject_each hc q [] vg = Some vg"
| "inject_each hc q (i # is) vg =
     (case vm_inject_irq hc vg i q of
        None \<Rightarrow> None
      | Some (err, vg') \<Rightarrow> inject_each hc q is vg')"

text \<open>
  Inputs at which the SGIR theorems are instantiated: a full-word guest write of \<open>w\<close>
  to SGIR; a VM with seventeen vCPUs of which only vCPU 16 is online; and a \<^verbatim>\<open>vgic\<close> in
  which vCPU 16 has a handler for SGI 2, enabled, with the distributor enabled.
\<close>

definition sgir_write :: "u32 \<Rightarrow> fault" where
  "sgir_write w =
     \<lparr>fault_address = 0xF00, fault_data = w, fault_data_mask = 0xFFFFFFFF, fault_read = False,
      fault_stage = FAULT_OPEN, advance_status = 0, ignore_status = 0\<rparr>"

definition seventeen_vcpu_vm :: vm where
  "seventeen_vcpu_vm = \<lparr>num_vcpus = 17, is_vcpu_online = (\<lambda>i. i = 16)\<rparr>"

definition vcpu16_sgi2 :: vgic where
  "vcpu16_sgi2 =
     vgic_empty\<lparr>sgi_ppi_irq := (\<lambda>_ _. None)(16 := (\<lambda>_. None)(2 := Some (virq_init 2 7 0))),
                registers := gic_dist_zero\<lparr>enable := 1,
                  enable_set0 := (\<lambda>_. 0)(16 := 4), enable_clr0 := (\<lambda>_. 0)(16 := 4)\<rparr>\<rparr>"

section \<open>Handler lookup\<close>

lemma virq_find_spi_from_virq:
  "virq_find_spi_from vg q i = Some h \<Longrightarrow> virq h = q"
  by (induction vg q i rule: virq_find_spi_from.induct)
     (subst (asm) virq_find_spi_from.simps, auto split: if_splits option.splits)

lemma virq_add_spi_empty:
  "32 \<le> q \<Longrightarrow> virq_add vcpu vgic_empty (virq_init q a t)
     = (0, vgic_empty\<lparr>virqs := (virqs vgic_empty)(0 := Some (virq_init q a t))\<rparr>)"
  by (simp add: virq_add_def virq_init_def virq_spi_add_def virq_spi_add_from.simps vgic_empty_def)

section \<open>Frame and invariant lemmas\<close>

lemma find_irq_data_virq:
  "sgi_ppi_indexed vg \<Longrightarrow> virq_find_irq_data vg vcpu q = Some h \<Longrightarrow> virq h = q"
  by (auto simp: virq_find_irq_data_def virq_get_sgi_ppi_def virq_find_spi_irq_data_def
      sgi_ppi_indexed_def dest: virq_find_spi_from_virq split: if_splits)

lemma IRQ_BIT_nonzero: "IRQ_BIT q \<noteq> 0"
proof
  assume "IRQ_BIT q = 0"
  then have "bit (IRQ_BIT q) (q mod 32) = bit (0::u32) (q mod 32)" by (rule arg_cong)
  then show False by (simp add: IRQ_BIT_def bit_simps)
qed

lemma is_pending_set_pending: "is_pending (set_pending d q True v) q v"
  by (simp add: is_pending_def set_pending_def is_sgi_ppi_pending_def is_spi_pending_def
      set_sgi_ppi_pending_def set_spi_pending_def IRQ_BIT_nonzero)

lemma enqueue_frame:
  assumes "vgic_irq_enqueue vg vcpu h = (r, vg')"
  shows "sgi_ppi_irq vg' = sgi_ppi_irq vg" "virqs vg' = virqs vg" "registers vg' = registers vg"
    "lr_shadow vg' = lr_shadow vg" "acked vg' = acked vg"
  using assms by (auto simp: vgic_irq_enqueue_def Let_def split: if_splits)

lemma dequeue_frame:
  assumes "vgic_irq_dequeue vg vcpu = (r, vg')"
  shows "sgi_ppi_irq vg' = sgi_ppi_irq vg" "virqs vg' = virqs vg" "registers vg' = registers vg"
    "lr_shadow vg' = lr_shadow vg" "acked vg' = acked vg"
  using assms by (auto simp: vgic_irq_dequeue_def Let_def split: if_splits)

lemma load_list_reg_frame:
  assumes "vgic_vcpu_load_list_reg hc vg vcpu idx h = (r, vg')"
  shows "sgi_ppi_irq vg' = sgi_ppi_irq vg" "virqs vg' = virqs vg" "registers vg' = registers vg"
    "irq_queue vg' = irq_queue vg" "acked vg' = acked vg"
  using assms by (auto simp: vgic_vcpu_load_list_reg_def vgic_shadow_irq_def)

lemma dequeue_snd:
  "sgi_ppi_irq (snd (vgic_irq_dequeue vg vcpu)) = sgi_ppi_irq vg"
  "virqs (snd (vgic_irq_dequeue vg vcpu)) = virqs vg"
  "registers (snd (vgic_irq_dequeue vg vcpu)) = registers vg"
  using dequeue_frame [of vg vcpu "fst (vgic_irq_dequeue vg vcpu)" "snd (vgic_irq_dequeue vg vcpu)"]
  by simp_all

lemma load_list_reg_snd:
  "sgi_ppi_irq (snd (vgic_vcpu_load_list_reg hc vg vcpu idx h)) = sgi_ppi_irq vg"
  "virqs (snd (vgic_vcpu_load_list_reg hc vg vcpu idx h)) = virqs vg"
  "registers (snd (vgic_vcpu_load_list_reg hc vg vcpu idx h)) = registers vg"
  "irq_queue (snd (vgic_vcpu_load_list_reg hc vg vcpu idx h)) = irq_queue vg"
  by (simp_all add: vgic_vcpu_load_list_reg_def vgic_shadow_irq_def)

lemma shadow_irq_frame:
  "sgi_ppi_irq (vgic_shadow_irq vg idx h vcpu) = sgi_ppi_irq vg"
  "virqs (vgic_shadow_irq vg idx h vcpu) = virqs vg"
  "registers (vgic_shadow_irq vg idx h vcpu) = registers vg"
  "irq_queue (vgic_shadow_irq vg idx h vcpu) = irq_queue vg"
  by (simp_all add: vgic_shadow_irq_def)

text \<open>The outcomes of set-pending, as far as tables and registers go.\<close>

lemma set_pending_irq_cases:
  assumes "vgic_dist_set_pending_irq hc vg vcpu irq = Some (r, vg')"
  obtains (rejected) "r = -1" "vg' = vg"
  | (already) h where "virq_find_irq_data vg vcpu irq = Some h"
      "gic_dist_is_enabled (registers vg)" "is_enabled (registers vg) irq vcpu"
      "is_pending (registers vg) (virq h) vcpu" "r = 0" "vg' = vg"
  | (fresh) h where "virq_find_irq_data vg vcpu irq = Some h"
      "gic_dist_is_enabled (registers vg)" "is_enabled (registers vg) irq vcpu"
      "registers vg' = set_pending (registers vg) (virq h) True vcpu"
      "sgi_ppi_irq vg' = sgi_ppi_irq vg" "virqs vg' = virqs vg" "acked vg' = acked vg"
proof (cases "virq_find_irq_data vg vcpu irq")
  case None
  with assms have "r = -1" "vg' = vg" by (simp_all add: vgic_dist_set_pending_irq_def)
  then show ?thesis by (rule rejected)
next
  case (Some h)
  let ?d = "registers vg"
  show ?thesis
  proof (cases "\<not> gic_dist_is_enabled ?d \<or> \<not> is_enabled ?d irq vcpu")
    case True
    with assms Some have "r = -1" "vg' = vg"
      by (auto simp: vgic_dist_set_pending_irq_def Let_def split: if_splits)
    then show ?thesis by (rule rejected)
  next
    case en: False
    show ?thesis
    proof (cases "is_pending ?d (virq h) vcpu")
      case True
      with assms Some en have "r = 0" "vg' = vg"
        by (auto simp: vgic_dist_set_pending_irq_def Let_def split: if_splits)
      with Some en True show ?thesis by (intro already [of h]) simp_all
    next
      case False
      let ?vg1 = "vg\<lparr>registers := set_pending ?d (virq h) True vcpu\<rparr>"
      obtain err vg2 where e: "vgic_irq_enqueue ?vg1 vcpu (Some h) = (err, vg2)"
        by (cases "vgic_irq_enqueue ?vg1 vcpu (Some h)")
      note e2 = enqueue_frame [OF e]
      show ?thesis
      proof (cases "err \<noteq> 0 \<or> vgic_find_empty_list_reg vg2 vcpu < 0")
        case True
        with assms Some en False e have "vg' = vg2"
          by (auto simp: vgic_dist_set_pending_irq_def Let_def split: if_splits)
        with e2 Some en show ?thesis by (intro fresh [of h]) simp_all
      next
        case no: False
        obtain v vg3 where d: "vgic_irq_dequeue vg2 vcpu = (v, vg3)"
          by (cases "vgic_irq_dequeue vg2 vcpu")
        note d3 = dequeue_frame [OF d]
        from assms Some en False e no d obtain v' where
          l: "vgic_vcpu_load_list_reg hc vg3 vcpu (nat (vgic_find_empty_list_reg vg2 vcpu)) v' = (r, vg')"
          by (auto simp: vgic_dist_set_pending_irq_def Let_def split: if_splits option.splits)
        note l4 = load_list_reg_frame [OF l]
        from e2 d3 l4 Some en show ?thesis by (intro fresh [of h]) simp_all
      qed
    qed
  qed
qed

lemma for_each_set_bit_inv:
  "(\<And>i s s'. P s \<Longrightarrow> f i s = Some s' \<Longrightarrow> P s') \<Longrightarrow> P s \<Longrightarrow>
   for_each_set_bit f d s = Some s' \<Longrightarrow> P s'"
proof (induction f d s rule: for_each_set_bit.induct)
  case (1 f d s)
  show ?case
  proof (cases "d = 0")
    case True
    with "1.prems" show ?thesis by (simp add: for_each_set_bit.simps)
  next
    case False
    with "1.prems"(3) obtain s1 where s1: "f (CTZ d) s = Some s1"
      and rest: "for_each_set_bit f (d AND NOT (push_bit (CTZ d) 1)) s1 = Some s'"
      by (subst (asm) for_each_set_bit.simps) (auto simp: Let_def split: option.splits)
    from "1.prems"(1) [OF "1.prems"(2) s1] have "P s1" .
    from "1.IH" [OF False refl refl s1 "1.prems"(1) this rest] show ?thesis by simp
  qed
qed

lemma sgir_forward_inv:
  "(\<And>i s r s'. P s \<Longrightarrow> vm_inject_irq hc s i q = Some (r, s') \<Longrightarrow> P s') \<Longrightarrow> P vg \<Longrightarrow>
   sgir_forward hc m tgt q i vg = Some vg' \<Longrightarrow> P vg'"
proof (induction hc m tgt q i vg rule: sgir_forward.induct)
  case (1 hc m tgt q i vg)
  show ?case
  proof (cases "i < num_vcpus m")
    case False
    with "1.prems" show ?thesis by (simp add: sgir_forward.simps)
  next
    case True
    show ?thesis
    proof (cases "\<not> bit tgt i \<or> \<not> is_vcpu_online m i")
      case skip: True
      with True "1.prems"(3) have "sgir_forward hc m tgt q (Suc i) vg = Some vg'"
        by (subst (asm) sgir_forward.simps) auto
      from "1.IH"(1) [OF True skip "1.prems"(1) "1.prems"(2) this] show ?thesis by simp
    next
      case call: False
      with True "1.prems"(3) obtain r vg1 where c: "vm_inject_irq hc vg i q = Some (r, vg1)"
        and rest: "sgir_forward hc m tgt q (Suc i) vg1 = Some vg'"
        by (subst (asm) sgir_forward.simps) (auto split: option.splits)
      from "1.prems"(1) [OF "1.prems"(2) c] have "P vg1" .
      from "1.IH"(2) [OF True call c refl "1.prems"(1) this rest] show ?thesis by simp
    qed
  qed
qed

lemma paired_banks_set_enable: "paired_banks d \<Longrightarrow> paired_banks (set_enable d irq val v)"
  by (simp add: paired_banks_def set_enable_def set_sgi_ppi_enable_def set_spi_enable_def)

lemma paired_banks_set_pending: "paired_banks d \<Longrightarrow> paired_banks (set_pending d irq val v)"
  by (simp add: paired_banks_def set_pending_def set_sgi_ppi_pending_def set_spi_pending_def)

lemma enable_irq_frame:
  assumes "vgic_dist_enable_irq vg vcpu irq = (r, vg')"
  shows "sgi_ppi_irq vg' = sgi_ppi_irq vg" "virqs vg' = virqs vg"
    "registers vg' = set_enable (registers vg) irq True vcpu"
    "irq_queue vg' = irq_queue vg" "lr_shadow vg' = lr_shadow vg"
  using assms
  by (auto simp: vgic_dist_enable_irq_def Let_def virq_ack_def split: option.splits if_splits)

lemma set_pending_irq_paired:
  assumes "vgic_dist_set_pending_irq hc vg vcpu irq = Some (r, vg')" "paired_banks (registers vg)"
  shows "paired_banks (registers vg')"
  using assms(1)
proof (cases rule: set_pending_irq_cases)
  case (fresh h)
  with assms(2) show ?thesis by (simp add: paired_banks_set_pending)
qed (use assms(2) in simp_all)

lemma set_pending_irq_tables:
  assumes "vgic_dist_set_pending_irq hc vg vcpu irq = Some (r, vg')"
  shows "sgi_ppi_irq vg' = sgi_ppi_irq vg \<and> virqs vg' = virqs vg"
  using assms by (cases rule: set_pending_irq_cases) simp_all

lemma enable_irq_snd:
  "sgi_ppi_irq (snd (vgic_dist_enable_irq vg vcpu irq)) = sgi_ppi_irq vg"
  "virqs (snd (vgic_dist_enable_irq vg vcpu irq)) = virqs vg"
  "registers (snd (vgic_dist_enable_irq vg vcpu irq)) = set_enable (registers vg) irq True vcpu"
  using enable_irq_frame [of vg vcpu irq "fst (vgic_dist_enable_irq vg vcpu irq)"
      "snd (vgic_dist_enable_irq vg vcpu irq)"]
  by simp_all

lemma write_reg_tables:
  assumes "vgic_dist_write_reg hc m vg vcpu offset f = Some vg'"
  shows "sgi_ppi_irq vg' = sgi_ppi_irq vg \<and> virqs vg' = virqs vg"
proof -
  let ?P = "\<lambda>s. sgi_ppi_irq s = sgi_ppi_irq vg \<and> virqs s = virqs vg"
  from assms show ?thesis
    unfolding vgic_dist_write_reg_def Let_def
    by (auto split: if_splits option.splits simp: enable_irq_snd vm_inject_irq_def
        elim!: for_each_set_bit_inv [where P = ?P, rotated 2] sgir_forward_inv [where P = ?P, rotated 2]
        dest!: set_pending_irq_tables)
qed

lemma write_reg_paired:
  assumes "vgic_dist_write_reg hc m vg vcpu offset f = Some vg'" "paired_banks (registers vg)"
  shows "paired_banks (registers vg')"
proof -
  let ?P = "\<lambda>s. paired_banks (registers s)"
  have upd: "paired_banks d \<Longrightarrow> paired_banks (d\<lparr>irq_group0 := a\<rparr>)"
    "paired_banks d \<Longrightarrow> paired_banks (d\<lparr>irq_group := a\<rparr>)"
    "paired_banks d \<Longrightarrow> paired_banks (d\<lparr>active0 := a\<rparr>)"
    "paired_banks d \<Longrightarrow> paired_banks (d\<lparr>active := a\<rparr>)"
    "paired_banks d \<Longrightarrow> paired_banks (d\<lparr>active_clr0 := a\<rparr>)"
    "paired_banks d \<Longrightarrow> paired_banks (d\<lparr>active_clr := a\<rparr>)"
    "paired_banks d \<Longrightarrow> paired_banks (d\<lparr>enable := e\<rparr>)" for d a e
    by (simp_all add: paired_banks_def)
  from assms show ?thesis
    unfolding vgic_dist_write_reg_def Let_def
    by (auto split: if_splits option.splits
        simp: enable_irq_snd vm_inject_irq_def upd paired_banks_set_enable paired_banks_set_pending
          vgic_dist_enable_def vgic_dist_disable_def gic_dist_enable_def gic_dist_disable_def
          vgic_dist_disable_irq_def vgic_dist_clr_pending_irq_def
        elim!: for_each_set_bit_inv [where P = ?P, rotated 2] sgir_forward_inv [where P = ?P, rotated 2]
        dest: set_pending_irq_paired)
qed

lemma spi_add_from_frame:
  "sgi_ppi_irq (snd (virq_spi_add_from vg h i)) = sgi_ppi_irq vg \<and>
   registers (snd (virq_spi_add_from vg h i)) = registers vg"
  by (induction vg h i rule: virq_spi_add_from.induct)
     (subst virq_spi_add_from.simps, subst virq_spi_add_from.simps, simp)

lemma virq_add_registers: "registers (snd (virq_add vcpu vg h)) = registers vg"
  by (simp add: virq_add_def virq_spi_add_def virq_sgi_ppi_add_def spi_add_from_frame Let_def)

lemma virq_add_indexed: "sgi_ppi_indexed vg \<Longrightarrow> sgi_ppi_indexed (snd (virq_add vcpu vg h))"
  by (simp add: virq_add_def virq_spi_add_def virq_sgi_ppi_add_def spi_add_from_frame Let_def
      sgi_ppi_indexed_def)

lemma fault_frame:
  assumes "handle_vgic_dist_fault hc m pstart vg vcpu fault = Some (r, fault', vg')"
  shows "sgi_ppi_irq vg' = sgi_ppi_irq vg" "virqs vg' = virqs vg"
    "paired_banks (registers vg) \<Longrightarrow> paired_banks (registers vg')"
  using assms
  by (auto simp: handle_vgic_dist_fault_def handle_vgic_dist_write_fault_def Let_def
      split: if_splits option.splits prod.splits dest: write_reg_tables write_reg_paired)

lemma reachable_indexed: "reachable vg \<Longrightarrow> sgi_ppi_indexed vg"
proof (induction rule: reachable.induct)
  case reach_init
  show ?case by (simp add: sgi_ppi_indexed_def vgic_empty_def)
next
  case (reach_register vg vcpu virq_data)
  then show ?case by (simp add: virq_add_indexed)
next
  case (reach_fault vg hc m pstart vcpu fault r fault' vg')
  then show ?case using fault_frame(1) [OF reach_fault.hyps(2)] by (simp add: sgi_ppi_indexed_def)
next
  case (reach_enable_irq vg vcpu irq)
  then show ?case by (simp add: sgi_ppi_indexed_def enable_irq_snd)
next
  case (reach_set_pending_irq vg hc vcpu irq r vg')
  then show ?case using set_pending_irq_tables [OF reach_set_pending_irq.hyps(2)]
    by (simp add: sgi_ppi_indexed_def)
next
  case (reach_inject_irq vg hc vcpu irq r vg')
  then show ?case
    using set_pending_irq_tables [OF reach_inject_irq.hyps(2) [unfolded vm_inject_irq_def]]
    by (simp add: sgi_ppi_indexed_def)
qed (simp_all add: sgi_ppi_indexed_def dequeue_snd load_list_reg_snd shadow_irq_frame)

lemma reachable_paired: "reachable vg \<Longrightarrow> paired_banks (registers vg)"
proof (induction rule: reachable.induct)
  case reach_init
  show ?case by (simp add: paired_banks_def vgic_empty_def gic_dist_zero_def)
next
  case (reach_register vg vcpu virq_data)
  then show ?case by (simp add: virq_add_registers)
next
  case (reach_fault vg hc m pstart vcpu fault r fault' vg')
  then show ?case using fault_frame(3) [OF reach_fault.hyps(2)] by simp
next
  case (reach_enable_irq vg vcpu irq)
  then show ?case by (simp add: enable_irq_snd paired_banks_set_enable)
next
  case (reach_disable_irq vg vcpu irq)
  then show ?case by (simp add: vgic_dist_disable_irq_def paired_banks_set_enable)
next
  case (reach_set_pending_irq vg hc vcpu irq r vg')
  then show ?case using set_pending_irq_paired [OF reach_set_pending_irq.hyps(2)] by simp
next
  case (reach_clr_pending_irq vg vcpu irq)
  then show ?case by (simp add: vgic_dist_clr_pending_irq_def paired_banks_set_pending)
next
  case (reach_inject_irq vg hc vcpu irq r vg')
  then show ?case
    using set_pending_irq_paired [OF reach_inject_irq.hyps(2) [unfolded vm_inject_irq_def]] by simp
qed (simp_all add: dequeue_snd load_list_reg_snd shadow_irq_frame)

lemma find_spi_from_cong:
  "virqs vg' = virqs vg \<Longrightarrow> virq_find_spi_from vg' q i = virq_find_spi_from vg q i"
proof (induction vg q i rule: virq_find_spi_from.induct)
  case (1 vg q i)
  show ?case
  proof (cases "i < MAX_VIRQS")
    case False
    then show ?thesis by (simp add: virq_find_spi_from.simps)
  next
    case True
    show ?thesis
    proof (cases "virqs vg i")
      case None
      with True 1 show ?thesis
        by (subst virq_find_spi_from.simps, subst (2) virq_find_spi_from.simps) simp
    next
      case (Some h)
      with True 1 show ?thesis
        by (subst virq_find_spi_from.simps, subst (2) virq_find_spi_from.simps) simp
    qed
  qed
qed

lemma find_irq_data_cong:
  "sgi_ppi_irq vg' = sgi_ppi_irq vg \<Longrightarrow> virqs vg' = virqs vg \<Longrightarrow>
   virq_find_irq_data vg' vcpu q = virq_find_irq_data vg vcpu q"
  using find_spi_from_cong [of vg' vg q 0]
  by (simp add: virq_find_irq_data_def virq_get_sgi_ppi_def virq_find_spi_irq_data_def)

lemma set_pending_keeps_enable:
  "gic_dist_is_enabled (set_pending d q val v) = gic_dist_is_enabled d"
  "is_enabled (set_pending d q val v) irq vcpu = is_enabled d irq vcpu"
  by (simp_all add: set_pending_def set_sgi_ppi_pending_def set_spi_pending_def
      gic_dist_is_enabled_def is_enabled_def is_sgi_ppi_enabled_def is_spi_enabled_def)

lemma set_pending_irq_pending:
  assumes "virq_find_irq_data vg vcpu irq = Some h"
    "gic_dist_is_enabled (registers vg)" "is_enabled (registers vg) irq vcpu"
    "is_pending (registers vg) (virq h) vcpu"
  shows "vgic_dist_set_pending_irq hc vg vcpu irq = Some (0, vg)"
  using assms by (simp add: vgic_dist_set_pending_irq_def Let_def)

lemma set_pending_irq_again:
  assumes "vgic_dist_set_pending_irq hc vg vcpu irq = Some (0, vg')"
  shows "vgic_dist_set_pending_irq hc' vg' vcpu irq = Some (0, vg')"
  using assms
proof (cases rule: set_pending_irq_cases)
  case rejected
  from rejected(1) show ?thesis by simp
next
  case (already h)
  from already(1-4) have "vgic_dist_set_pending_irq hc' vg vcpu irq = Some (0, vg)"
    by (rule set_pending_irq_pending)
  with already(6) show ?thesis by simp
next
  case (fresh h)
  from fresh(5,6) have "virq_find_irq_data vg' vcpu irq = virq_find_irq_data vg vcpu irq"
    by (rule find_irq_data_cong)
  with fresh(1) have f: "virq_find_irq_data vg' vcpu irq = Some h" by simp
  have e: "gic_dist_is_enabled (registers vg')" "is_enabled (registers vg') irq vcpu"
    "is_pending (registers vg') (virq h) vcpu"
    unfolding fresh(4) using fresh(2,3)
    by (simp_all add: set_pending_keeps_enable is_pending_set_pending)
  from f e show ?thesis by (rule set_pending_irq_pending)
qed

section \<open>Set-pending: the rejected cases\<close>

text \<open>
  Claim C2. For every vCPU and IRQ number, \<^verbatim>\<open>vgic_dist_set_pending_irq\<close> (and with it
  \<^verbatim>\<open>inject_irq\<close>) returns \<open>-1\<close> and returns the \<^verbatim>\<open>vgic\<close> it was given, so the
  distributor shadow, the overflow queue and \<open>lr_shadow\<close> are unchanged, whenever no
  handler is registered for the IRQ on that vCPU, or the distributor is disabled, or
  the enable bit of the IRQ is clear for that vCPU.
\<close>

theorem set_pending_not_deliverable:
  assumes "virq_find_irq_data vg vcpu irq = None
           \<or> \<not> gic_dist_is_enabled (registers vg)
           \<or> \<not> is_enabled (registers vg) irq vcpu"
  shows "vgic_dist_set_pending_irq hc vg vcpu irq = Some (-1, vg)
         \<and> vm_inject_irq hc vg vcpu irq = Some (-1, vg)"
  using assms
  by (auto simp: vgic_dist_set_pending_irq_def vm_inject_irq_def Let_def split: option.splits)

text \<open>
  The theorem at a concrete state: a handler for SPI 42 is registered, the distributor
  is still disabled.
\<close>

theorem set_pending_not_deliverable_witness:
  "virq_find_irq_data (snd (virq_add 0 vgic_empty (virq_init 42 7 0))) 0 42 = Some (virq_init 42 7 0)
   \<and> \<not> gic_dist_is_enabled (registers (snd (virq_add 0 vgic_empty (virq_init 42 7 0))))
   \<and> vgic_dist_set_pending_irq (\<lambda>_ _ _. 0) (snd (virq_add 0 vgic_empty (virq_init 42 7 0))) 0 42
       = Some (-1, snd (virq_add 0 vgic_empty (virq_init 42 7 0)))
   \<and> vm_inject_irq (\<lambda>_ _ _. 0) (snd (virq_add 0 vgic_empty (virq_init 42 7 0))) 0 42
       = Some (-1, snd (virq_add 0 vgic_empty (virq_init 42 7 0)))"
proof -
  let ?vg = "snd (virq_add 0 vgic_empty (virq_init 42 7 0))"
  have vg: "?vg = vgic_empty\<lparr>virqs := (virqs vgic_empty)(0 := Some (virq_init 42 7 0))\<rparr>"
    by (simp add: virq_add_spi_empty)
  have d: "\<not> gic_dist_is_enabled (registers ?vg)"
    unfolding vg by (simp add: gic_dist_is_enabled_def vgic_empty_def gic_dist_zero_def)
  have f: "virq_find_irq_data ?vg 0 42 = Some (virq_init 42 7 0)"
    unfolding vg
    by (simp add: virq_find_irq_data_def virq_find_spi_irq_data_def
        virq_find_spi_from.simps virq_init_def)
  from d f set_pending_not_deliverable [of ?vg 0 42 "\<lambda>_ _ _. 0"] show ?thesis
    by blast
qed


section \<open>Set-pending is idempotent\<close>

text \<open>
  Claim C3. For a vCPU and an IRQ with a registered handler (the handler tables are
  as registration builds them), with the distributor enabled and the enable bit of
  the IRQ set: if the pending bit of the IRQ is already set, \<^verbatim>\<open>vgic_dist_set_pending_irq\<close>
  returns \<open>0\<close> and the \<^verbatim>\<open>vgic\<close> it was given, whatever the hypercall would answer, so
  nothing is enqueued, no list register is loaded and no state changes. Hence a
  second set-pending right after one that returned \<open>0\<close> is a no-op that returns \<open>0\<close>.
\<close>

theorem set_pending_idempotent:
  "(sgi_ppi_indexed vg \<and> virq_find_irq_data vg vcpu irq \<noteq> None
      \<and> gic_dist_is_enabled (registers vg) \<and> is_enabled (registers vg) irq vcpu
      \<and> is_pending (registers vg) irq vcpu
    \<longrightarrow> vgic_dist_set_pending_irq hc vg vcpu irq = Some (0, vg))
   \<and> (vgic_dist_set_pending_irq hc vg vcpu irq = Some (0, vg')
    \<longrightarrow> vgic_dist_set_pending_irq hc' vg' vcpu irq = Some (0, vg'))"
proof (intro conjI impI)
  assume a: "sgi_ppi_indexed vg \<and> virq_find_irq_data vg vcpu irq \<noteq> None
      \<and> gic_dist_is_enabled (registers vg) \<and> is_enabled (registers vg) irq vcpu
      \<and> is_pending (registers vg) irq vcpu"
  then obtain h where h: "virq_find_irq_data vg vcpu irq = Some h" by auto
  with a have "virq h = irq" by (auto dest: find_irq_data_virq)
  with a h show "vgic_dist_set_pending_irq hc vg vcpu irq = Some (0, vg)"
    by (intro set_pending_irq_pending [of vg vcpu irq h]) simp_all
next
  assume "vgic_dist_set_pending_irq hc vg vcpu irq = Some (0, vg')"
  then show "vgic_dist_set_pending_irq hc' vg' vcpu irq = Some (0, vg')"
    by (rule set_pending_irq_again)
qed

lemma vgic_example_facts:
  "sgi_ppi_indexed vgic_example"
  "virq_find_irq_data vgic_example 0 42 = Some (virq_init 42 7 0)"
  "gic_dist_is_enabled (registers vgic_example)"
  "is_enabled (registers vgic_example) 42 0"
  "is_pending (registers vgic_example) 42 0"
  by (simp_all add: vgic_example_def vgic_empty_def gic_dist_zero_def sgi_ppi_indexed_def
      virq_find_irq_data_def virq_find_spi_irq_data_def virq_find_spi_from.simps virq_init_def
      gic_dist_is_enabled_def is_enabled_def is_spi_enabled_def is_pending_def is_spi_pending_def
      IRQ_IDX_def IRQ_BIT_def)

text \<open>The theorem at the example state, where SPI 42 is pending.\<close>

theorem set_pending_idempotent_witness:
  "sgi_ppi_indexed vgic_example \<and> virq_find_irq_data vgic_example 0 42 = Some (virq_init 42 7 0)
   \<and> gic_dist_is_enabled (registers vgic_example) \<and> is_enabled (registers vgic_example) 42 0
   \<and> is_pending (registers vgic_example) 42 0
   \<and> vgic_dist_set_pending_irq (\<lambda>_ _ _. 0) vgic_example 0 42 = Some (0, vgic_example)
   \<and> vgic_dist_set_pending_irq (\<lambda>_ _ _. 1) vgic_example 0 42 = Some (0, vgic_example)"
  using set_pending_idempotent [of vgic_example 0 42 "\<lambda>_ _ _. 0" vgic_example "\<lambda>_ _ _. 1"]
    vgic_example_facts
  by simp

section \<open>The paired banks\<close>

text \<open>
  Claim C1, as amended. In every reachable state, for every vCPU \<open>v\<close> and every
  register index \<open>k\<close>, the set view and the clear view of the enable banks and of the
  pending banks are equal words, hence equal at the bit of every IRQ. Nothing is
  stated about the active banks.
\<close>

theorem paired_enable_pending_banks:
  assumes "reachable vg"
  shows "enable_set0 (registers vg) v = enable_clr0 (registers vg) v
       \<and> enable_set (registers vg) k = enable_clr (registers vg) k
       \<and> pending_set0 (registers vg) v = pending_clr0 (registers vg) v
       \<and> pending_set (registers vg) k = pending_clr (registers vg) k"
  using reachable_paired [OF assms] by (simp add: paired_banks_def)

text \<open>The theorem at the state after enabling SPI 42.\<close>

theorem paired_enable_pending_banks_witness:
  "reachable (snd (vgic_dist_enable_irq vgic_empty 0 42))
   \<and> enable_set (registers (snd (vgic_dist_enable_irq vgic_empty 0 42))) 1 = 0x400
   \<and> enable_clr (registers (snd (vgic_dist_enable_irq vgic_empty 0 42))) 1 = 0x400
   \<and> enable_set0 (registers (snd (vgic_dist_enable_irq vgic_empty 0 42))) 0
       = enable_clr0 (registers (snd (vgic_dist_enable_irq vgic_empty 0 42))) 0
   \<and> pending_set0 (registers (snd (vgic_dist_enable_irq vgic_empty 0 42))) 0
       = pending_clr0 (registers (snd (vgic_dist_enable_irq vgic_empty 0 42))) 0
   \<and> pending_set (registers (snd (vgic_dist_enable_irq vgic_empty 0 42))) 1
       = pending_clr (registers (snd (vgic_dist_enable_irq vgic_empty 0 42))) 1"
proof -
  let ?vg = "snd (vgic_dist_enable_irq vgic_empty 0 42)"
  have r: "reachable ?vg" by (rule reach_enable_irq) (rule reach_init)
  have e: "enable_set (registers ?vg) 1 = 0x400"
    by (simp add: enable_irq_snd set_enable_def set_spi_enable_def vgic_empty_def
        gic_dist_zero_def IRQ_IDX_def IRQ_BIT_def)
  from r e paired_enable_pending_banks [OF r, of 0 1] show ?thesis by simp
qed

text \<open>
  The claim as stated fails for the active banks: from the all-zero state a guest
  write of \<open>1\<close> to ISACTIVER0 sets bit 0 of \<open>active0\<close> and leaves \<open>active_clr0\<close> zero.
\<close>

lemma active_write_result:
  "handle_vgic_dist_fault (\<lambda>_ _ _. 0) one_vcpu_vm 0 vgic_empty 0 active_write_fault
     = Some (FAULT_HANDLED, active_write_fault\<lparr>fault_stage := FAULT_IGNORED\<rparr>,
             vgic_empty\<lparr>registers := gic_dist_zero\<lparr>active0 := (\<lambda>_. 0)(0 := 1)\<rparr>\<rparr>)"
  by (simp add: handle_vgic_dist_fault_def handle_vgic_dist_write_fault_def vgic_dist_write_reg_def
      fault_is_read_def fault_get_address_def fault_get_data_def fault_get_data_mask_def
      ignore_fault_def fault_emulate_def RANGE32_def active_write_fault_def vgic_empty_def
      gic_dist_zero_def Let_def)

theorem paired_banks_active_counterexample:
  "handle_vgic_dist_fault (\<lambda>_ _ _. 0) one_vcpu_vm 0 vgic_empty 0 active_write_fault
     = Some (FAULT_HANDLED, active_write_fault\<lparr>fault_stage := FAULT_IGNORED\<rparr>,
             vgic_empty\<lparr>registers := gic_dist_zero\<lparr>active0 := (\<lambda>_. 0)(0 := 1)\<rparr>\<rparr>)
   \<and> reachable (vgic_empty\<lparr>registers := gic_dist_zero\<lparr>active0 := (\<lambda>_. 0)(0 := 1)\<rparr>\<rparr>)
   \<and> active0 (registers (vgic_empty\<lparr>registers := gic_dist_zero\<lparr>active0 := (\<lambda>_. 0)(0 := 1)\<rparr>\<rparr>)) 0 = 1
   \<and> active_clr0 (registers (vgic_empty\<lparr>registers := gic_dist_zero\<lparr>active0 := (\<lambda>_. 0)(0 := 1)\<rparr>\<rparr>)) 0 = 0"
proof -
  have "reachable (vgic_empty\<lparr>registers := gic_dist_zero\<lparr>active0 := (\<lambda>_. 0)(0 := 1)\<rparr>\<rparr>)"
    by (rule reach_fault [OF reach_init active_write_result])
  with active_write_result show ?thesis by (simp add: gic_dist_zero_def)
qed

section \<open>Lookup consistency\<close>

text \<open>
  Claim C9. In every state reachable through registration (and any other step), a
  handler that \<^verbatim>\<open>virq_find_irq_data\<close> returns for \<open>v\<close> has \<open>virq\<close> field \<open>v\<close>. The SPI scan
  returns only entries whose \<open>virq\<close> field equals the query, in any state;
  \<^verbatim>\<open>virq_sgi_ppi_add\<close> stores the handler at the index of its own \<open>virq\<close> field; and
  every registration preserves that all SGI/PPI handlers sit at their own index.
\<close>

theorem lookup_consistency:
  "(reachable vg \<and> virq_find_irq_data vg vcpu v = Some h \<longrightarrow> virq h = v)
   \<and> (virq_find_spi_irq_data s v = Some h' \<longrightarrow> virq h' = v)
   \<and> (sgi_ppi_indexed s \<longrightarrow> sgi_ppi_indexed (snd (virq_add c s d)))
   \<and> (fst (virq_sgi_ppi_add c s d) = 0
        \<longrightarrow> sgi_ppi_irq (snd (virq_sgi_ppi_add c s d)) c (virq d) = Some d)"
proof (intro conjI impI)
  assume "reachable vg \<and> virq_find_irq_data vg vcpu v = Some h"
  then show "virq h = v" by (auto dest: reachable_indexed find_irq_data_virq)
next
  assume "virq_find_spi_irq_data s v = Some h'"
  then show "virq h' = v" by (auto simp: virq_find_spi_irq_data_def dest: virq_find_spi_from_virq)
next
  assume "sgi_ppi_indexed s"
  then show "sgi_ppi_indexed (snd (virq_add c s d))" by (rule virq_add_indexed)
next
  assume "fst (virq_sgi_ppi_add c s d) = 0"
  then show "sgi_ppi_irq (snd (virq_sgi_ppi_add c s d)) c (virq d) = Some d"
    by (simp add: virq_sgi_ppi_add_def split: if_splits)
qed

text \<open>The theorem after registering SGI 3 on vCPU 1, and at the example state.\<close>

theorem lookup_consistency_witness:
  "reachable (snd (virq_add 1 vgic_empty (virq_init 3 7 0)))
   \<and> virq_find_irq_data (snd (virq_add 1 vgic_empty (virq_init 3 7 0))) 1 3 = Some (virq_init 3 7 0)
   \<and> virq (virq_init 3 7 0) = 3
   \<and> virq_find_spi_irq_data vgic_example 42 = Some (virq_init 42 7 0)
   \<and> virq (virq_init 42 7 0) = 42
   \<and> sgi_ppi_indexed vgic_empty
   \<and> sgi_ppi_indexed (snd (virq_add 1 vgic_empty (virq_init 3 7 0)))
   \<and> fst (virq_sgi_ppi_add 1 vgic_empty (virq_init 3 7 0)) = 0
   \<and> sgi_ppi_irq (snd (virq_sgi_ppi_add 1 vgic_empty (virq_init 3 7 0))) 1 3 = Some (virq_init 3 7 0)"
proof -
  let ?h = "virq_init 3 7 0"
  let ?vg = "snd (virq_add 1 vgic_empty ?h)"
  have r: "reachable ?vg" by (rule reach_register) (rule reach_init)
  have f: "virq_find_irq_data ?vg 1 3 = Some ?h"
    by (simp add: virq_add_def virq_sgi_ppi_add_def virq_find_irq_data_def virq_get_sgi_ppi_def
        virq_init_def vgic_empty_def)
  have g: "virq_find_spi_irq_data vgic_example 42 = Some (virq_init 42 7 0)"
    using vgic_example_facts(2) by (simp add: virq_find_irq_data_def)
  have i: "sgi_ppi_indexed vgic_empty" by (simp add: sgi_ppi_indexed_def vgic_empty_def)
  have a: "fst (virq_sgi_ppi_add 1 vgic_empty ?h) = 0"
    by (simp add: virq_sgi_ppi_add_def vgic_empty_def)
  from r f g i a
    lookup_consistency [where vg = ?vg and vcpu = 1 and v = 3 and h = ?h and s = vgic_empty
      and c = 1 and d = ?h]
    lookup_consistency [where v = 42 and s = vgic_example and h' = "virq_init 42 7 0"]
  show ?thesis by (simp add: virq_init_def)
qed

section \<open>Registration of shared interrupts\<close>

text \<open>
  Claim C4 says that registering an SPI whose \<open>virq\<close> is already in the global table
  fails. \<^verbatim>\<open>virq_spi_add\<close> takes the first empty slot and never compares \<open>virq\<close> fields
  (\<^verbatim>\<open>virq_sgi_ppi_add\<close> does refuse a slot that is taken): registering two handlers for
  SPI 42 succeeds twice and leaves two distinct entries with \<open>virq = 42\<close>.
\<close>

theorem spi_double_registration:
  "virq_add 0 vgic_empty (virq_init 42 7 1)
     = (0, vgic_empty\<lparr>virqs := (\<lambda>_. None)(0 := Some (virq_init 42 7 1))\<rparr>)
   \<and> virq_add 0 (vgic_empty\<lparr>virqs := (\<lambda>_. None)(0 := Some (virq_init 42 7 1))\<rparr>) (virq_init 42 7 2)
     = (0, vgic_empty\<lparr>virqs := (\<lambda>_. None)(0 := Some (virq_init 42 7 1), 1 := Some (virq_init 42 7 2))\<rparr>)
   \<and> virq (virq_init 42 7 1) = virq (virq_init 42 7 2)
   \<and> virq_init 42 7 1 \<noteq> virq_init 42 7 2"
  by (simp add: virq_add_def virq_init_def virq_spi_add_def virq_spi_add_from.simps vgic_empty_def)

section \<open>Disabling an interrupt\<close>

text \<open>
  Claim C5. \<^verbatim>\<open>vgic_dist_disable_irq\<close> returns \<open>0\<close>. For \<open>irq < NUM_SGI_VIRQS\<close> it leaves
  every field of the distributor shadow unchanged, so any later read fault, an
  ISENABLER0 read among them, has the same outcome as before. For \<open>irq \<ge> 16\<close> every
  field but the four enable banks is unchanged, and in the enable banks exactly the
  bit of that IRQ is cleared, in the set view and in the clear view: for a PPI bit
  \<open>irq\<close> of the word of the vCPU in \<open>enable_set0\<close> and \<open>enable_clr0\<close>, for an SPI bit
  \<open>irq mod 32\<close> of word \<open>irq div 32\<close> in \<open>enable_set\<close> and \<open>enable_clr\<close>.
\<close>

theorem disable_irq_frame:
  "fst (vgic_dist_disable_irq d vcpu irq) = 0
   \<and> (irq < NUM_SGI_VIRQS \<longrightarrow>
        snd (vgic_dist_disable_irq d vcpu irq) = d
        \<and> handle_vgic_dist_read_fault pstart
              (vg\<lparr>registers := snd (vgic_dist_disable_irq (registers vg) vcpu irq)\<rparr>) c f
            = handle_vgic_dist_read_fault pstart vg c f)
   \<and> (NUM_SGI_VIRQS \<le> irq \<longrightarrow>
        (snd (vgic_dist_disable_irq d vcpu irq))
            \<lparr>enable_set0 := enable_set0 d, enable_clr0 := enable_clr0 d,
             enable_set := enable_set d, enable_clr := enable_clr d\<rparr> = d
        \<and> bit (enable_set0 (snd (vgic_dist_disable_irq d vcpu irq)) v) j
            = (bit (enable_set0 d v) j \<and> \<not> (irq < GIC_SPI_IRQ_MIN \<and> v = vcpu \<and> j = irq))
        \<and> bit (enable_clr0 (snd (vgic_dist_disable_irq d vcpu irq)) v) j
            = (bit (enable_clr0 d v) j \<and> \<not> (irq < GIC_SPI_IRQ_MIN \<and> v = vcpu \<and> j = irq))
        \<and> bit (enable_set (snd (vgic_dist_disable_irq d vcpu irq)) k) j
            = (bit (enable_set d k) j
               \<and> \<not> (GIC_SPI_IRQ_MIN \<le> irq \<and> k = irq div 32 \<and> j = irq mod 32))
        \<and> bit (enable_clr (snd (vgic_dist_disable_irq d vcpu irq)) k) j
            = (bit (enable_clr d k) j
               \<and> \<not> (GIC_SPI_IRQ_MIN \<le> irq \<and> k = irq div 32 \<and> j = irq mod 32)))"
proof -
  have sgi: "irq < 16 \<Longrightarrow> snd (vgic_dist_disable_irq d' vcpu irq) = d'" for d'
    by (simp add: vgic_dist_disable_irq_def)
  have other: "(set_enable d irq False vcpu)
            \<lparr>enable_set0 := enable_set0 d, enable_clr0 := enable_clr0 d,
             enable_set := enable_set d, enable_clr := enable_clr d\<rparr> = d"
    by (simp add: set_enable_def set_sgi_ppi_enable_def set_spi_enable_def)
  have b0: "bit (enable_set0 (set_enable d irq False vcpu) v) j
            = (bit (enable_set0 d v) j \<and> \<not> (irq < 32 \<and> v = vcpu \<and> j = irq))"
    "bit (enable_clr0 (set_enable d irq False vcpu) v) j
            = (bit (enable_clr0 d v) j \<and> \<not> (irq < 32 \<and> v = vcpu \<and> j = irq))"
    by (auto simp: set_enable_def set_sgi_ppi_enable_def set_spi_enable_def IRQ_BIT_def bit_simps
        dest: bit_imp_le_length)
  have b1: "bit (enable_set (set_enable d irq False vcpu) k) j
            = (bit (enable_set d k) j \<and> \<not> (32 \<le> irq \<and> k = irq div 32 \<and> j = irq mod 32))"
    "bit (enable_clr (set_enable d irq False vcpu) k) j
            = (bit (enable_clr d k) j \<and> \<not> (32 \<le> irq \<and> k = irq div 32 \<and> j = irq mod 32))"
    by (auto simp: set_enable_def set_sgi_ppi_enable_def set_spi_enable_def IRQ_BIT_def IRQ_IDX_def
        bit_simps dest: bit_imp_le_length)
  show ?thesis
    using sgi [of d] sgi [of "registers vg"] other b0 b1
    by (simp add: vgic_dist_disable_irq_def)
qed

text \<open>The theorem for SGI 3 and for SPI 42 at the example state.\<close>

theorem disable_irq_frame_witness:
  "fst (vgic_dist_disable_irq (registers vgic_example) 0 3) = 0
   \<and> snd (vgic_dist_disable_irq (registers vgic_example) 0 3) = registers vgic_example
   \<and> bit (enable_set (registers vgic_example) 1) 10
   \<and> \<not> bit (enable_set (snd (vgic_dist_disable_irq (registers vgic_example) 0 42)) 1) 10
   \<and> \<not> bit (enable_clr (snd (vgic_dist_disable_irq (registers vgic_example) 0 42)) 1) 10
   \<and> bit (enable_set (snd (vgic_dist_disable_irq
              ((registers vgic_example)\<lparr>enable_set := (\<lambda>_. 0)(1 := 0xC00)\<rparr>) 0 42)) 1) 11"
proof -
  have b: "bit (enable_set (registers vgic_example) 1) 10"
    "bit (enable_set ((registers vgic_example)\<lparr>enable_set := (\<lambda>_. 0)(1 := 0xC00)\<rparr>) 1) 11"
    by (simp_all add: vgic_example_def)
  from b
    disable_irq_frame [where d = "registers vgic_example" and vcpu = 0 and irq = 3]
    disable_irq_frame [where d = "registers vgic_example" and vcpu = 0 and irq = 42
      and k = 1 and j = 10]
    disable_irq_frame [where d = "(registers vgic_example)\<lparr>enable_set := (\<lambda>_. 0)(1 := 0xC00)\<rparr>"
      and vcpu = 0 and irq = 42 and k = 1 and j = 11]
  show ?thesis by simp
qed

section \<open>Reads of reserved registers\<close>

lemma read_reg_reserved:
  "reserved_read_offset offset \<Longrightarrow> vgic_dist_read_reg d v offset = Some 0"
  unfolding reserved_read_offset_def RANGE32_def
  by (elim disjE) (simp_all add: vgic_dist_read_reg_def RANGE32_def)

text \<open>
  Claim C10, as amended. For a read fault whose offset lies in one of the reserved or
  implementation-defined ranges of the read switch, the handler writes \<open>0\<close> masked
  with the data mask into the data register of the fault, calls \<^verbatim>\<open>advance_fault\<close>, and
  returns \<^verbatim>\<open>FAULT_HANDLED\<close> when \<^verbatim>\<open>advance_fault\<close> reports success and \<^verbatim>\<open>FAULT_ERROR\<close>
  when it reports an error; the \<^verbatim>\<open>vgic\<close>, and so all distributor state, is unchanged.
\<close>

theorem reserved_read_zero:
  assumes "fault_is_read fault" "reserved_read_offset (fault_get_address fault - pstart)"
  shows "handle_vgic_dist_fault hc m pstart vg vcpu fault
         = Some (if advance_status fault = 0 then FAULT_HANDLED else FAULT_ERROR,
                 fault\<lparr>fault_data := 0 AND fault_get_data_mask fault, fault_stage := FAULT_ADVANCED\<rparr>,
                 vg)"
  using assms read_reg_reserved [OF assms(2), of "registers vg" vcpu]
  by (simp add: handle_vgic_dist_fault_def handle_vgic_dist_read_fault_def Let_def
      fault_set_data_def advance_fault_def fault_get_data_mask_def)

text \<open>The theorem for a read at \<open>0x00C\<close> that \<^verbatim>\<open>advance_fault\<close> completes.\<close>

theorem reserved_read_zero_witness:
  "fault_is_read (reserved_read_fault 0)
   \<and> reserved_read_offset (fault_get_address (reserved_read_fault 0) - 0)
   \<and> handle_vgic_dist_fault (\<lambda>_ _ _. 0) one_vcpu_vm 0 vgic_example 0 (reserved_read_fault 0)
       = Some (FAULT_HANDLED,
               (reserved_read_fault 0)\<lparr>fault_data := 0, fault_stage := FAULT_ADVANCED\<rparr>,
               vgic_example)"
proof -
  have a: "fault_is_read (reserved_read_fault 0)"
    "reserved_read_offset (fault_get_address (reserved_read_fault 0) - 0)"
    by (simp_all add: reserved_read_fault_def fault_is_read_def fault_get_address_def
        reserved_read_offset_def RANGE32_def)
  from a reserved_read_zero [OF a, of "\<lambda>_ _ _. 0" one_vcpu_vm vgic_example 0]
  show ?thesis by (simp add: reserved_read_fault_def)
qed

text \<open>
  The claim as stated (the handler returns \<^verbatim>\<open>FAULT_HANDLED\<close>) fails when
  \<^verbatim>\<open>advance_fault\<close> reports an error: the handler then returns \<^verbatim>\<open>FAULT_ERROR\<close>.
\<close>

theorem reserved_read_error_counterexample:
  "fault_is_read (reserved_read_fault (-1))
   \<and> fault_get_address (reserved_read_fault (-1)) - 0 = 0x00C
   \<and> fst (handle_vgic_dist_read_fault 0 vgic_empty 0 (reserved_read_fault (-1))) = FAULT_ERROR"
  by (simp add: handle_vgic_dist_read_fault_def Let_def vgic_dist_read_reg_def RANGE32_def
      fault_set_data_def advance_fault_def fault_get_data_mask_def fault_get_address_def
      fault_is_read_def reserved_read_fault_def)

section \<open>The overflow queue\<close>

lemma IRQ_QUEUE_NEXT_mod: "IRQ_QUEUE_NEXT i = (i + 1) mod 64"
proof -
  have "(63::nat) = mask 6" by (simp add: mask_eq_exp_minus_1)
  then have "IRQ_QUEUE_NEXT i = take_bit 6 (i + 1)"
    by (simp add: IRQ_QUEUE_NEXT_def take_bit_eq_mask)
  then show ?thesis by (simp add: take_bit_eq_mod)
qed

lemma mod_64_if: "x < 128 \<Longrightarrow> x mod 64 = (if x < 64 then x else x - (64::nat))"
  by (simp add: le_mod_geq)

lemma ring_last: "h < 64 \<Longrightarrow> t < 64 \<Longrightarrow> (h + (t + 64 - h) mod 64) mod 64 = (t::nat)"
  by (simp add: mod_64_if)

lemma ring_before: "h < 64 \<Longrightarrow> t < 64 \<Longrightarrow> k < (t + 64 - h) mod 64 \<Longrightarrow> (h + k) mod 64 \<noteq> (t::nat)"
  by (simp add: mod_64_if split: if_splits; arith)

lemma ring_push:
  "h < 64 \<Longrightarrow> t < 64 \<Longrightarrow> (t + 1) mod 64 \<noteq> h \<Longrightarrow>
   ((t + 1) mod 64 + 64 - h) mod 64 = Suc ((t + 64 - h) mod (64::nat))"
  by (simp add: mod_64_if split: if_splits; arith)

lemma ring_pop:
  "h < 64 \<Longrightarrow> t < 64 \<Longrightarrow> h \<noteq> t \<Longrightarrow>
   (t + 64 - h) mod 64 = Suc ((t + 64 - (h + 1) mod 64) mod (64::nat))"
  by (simp add: mod_64_if split: if_splits; arith)

lemma ring_shift: "h < 64 \<Longrightarrow> k < 64 \<Longrightarrow> ((h + 1) mod 64 + k) mod 64 = (h + Suc k) mod (64::nat)"
  by (simp add: mod_64_if split: if_splits; arith)

lemma ring_full: "h < 64 \<Longrightarrow> t < 64 \<Longrightarrow> ((t + 64 - h) mod 64 = 63) = ((t + 1) mod 64 = (h::nat))"
  by (auto simp add: mod_64_if split: if_splits)

lemma ring_empty: "h < 64 \<Longrightarrow> t < 64 \<Longrightarrow> ((t + 64 - h) mod 64 = 0) = (h = (t::nat))"
  by (auto simp add: mod_64_if split: if_splits)

lemma queue_list_length: "length (queue_list q) = (tail q + 64 - head q) mod 64"
  by (simp add: queue_list_def)

lemma queue_list_push:
  assumes "queue_ok q" "IRQ_QUEUE_NEXT (tail q) \<noteq> head q"
  shows "queue_list (q\<lparr>irqs := (irqs q)(tail q := x), tail := IRQ_QUEUE_NEXT (tail q)\<rparr>)
         = queue_list q @ [x]"
proof -
  let ?n = "(tail q + 64 - head q) mod 64"
  from assms have h: "head q < 64" and t: "tail q < 64" and nf: "(tail q + 1) mod 64 \<noteq> head q"
    by (simp_all add: queue_ok_def IRQ_QUEUE_NEXT_mod)
  have len: "((tail q + 1) mod 64 + 64 - head q) mod 64 = Suc ?n"
    using h t nf by (rule ring_push)
  let ?f = "\<lambda>k. irqs q ((head q + k) mod 64)"
  let ?g = "\<lambda>k. ((irqs q)(tail q := x)) ((head q + k) mod 64)"
  from len have len': "(Suc (tail q) mod 64 + 64 - head q) mod 64 = Suc ?n" by simp
  have old: "?g k = ?f k" if "k < ?n" for k
    using ring_before [OF h t that] by simp
  have new: "?g ?n = x"
    using ring_last [OF h t] by simp
  have "queue_list (q\<lparr>irqs := (irqs q)(tail q := x), tail := IRQ_QUEUE_NEXT (tail q)\<rparr>)
        = map ?g [0..<Suc ?n]"
    by (simp add: queue_list_def IRQ_QUEUE_NEXT_mod len' del: upt_Suc)
  also have "\<dots> = map ?g [0..<?n] @ [?g ?n]" by simp
  also have "map ?g [0..<?n] = map ?f [0..<?n]"
    by (rule map_cong) (use ring_before [OF h t] in auto)
  finally show ?thesis using ring_last [OF h t] by (simp add: queue_list_def)
qed

lemma queue_list_pop:
  assumes "queue_ok q" "head q \<noteq> tail q"
  shows "queue_list q = irqs q (head q) # queue_list (q\<lparr>head := IRQ_QUEUE_NEXT (head q)\<rparr>)"
proof -
  let ?m = "(tail q + 64 - (head q + 1) mod 64) mod 64"
  from assms have h: "head q < 64" and t: "tail q < 64" by (simp_all add: queue_ok_def)
  have len: "(tail q + 64 - head q) mod 64 = Suc ?m"
    using h t assms(2) by (rule ring_pop)
  have m: "?m < 64" by simp
  have sh: "((head q + 1) mod 64 + k) mod 64 = (head q + Suc k) mod 64" if "k < ?m" for k
    using that m by (intro ring_shift [OF h]) simp
  have "queue_list q = map (\<lambda>k. irqs q ((head q + k) mod 64)) (0 # map Suc [0..<?m])"
    unfolding queue_list_def len by (simp only: map_Suc_upt upt_conv_Cons [of 0 "Suc ?m"])
  also have "\<dots> = irqs q (head q) # map (\<lambda>k. irqs q ((head q + Suc k) mod 64)) [0..<?m]"
    using h by (simp add: comp_def)
  also have "map (\<lambda>k. irqs q ((head q + Suc k) mod 64)) [0..<?m]
             = queue_list (q\<lparr>head := IRQ_QUEUE_NEXT (head q)\<rparr>)"
    by (simp add: queue_list_def IRQ_QUEUE_NEXT_mod mod_simps)
  finally show ?thesis .
qed

lemma queue_ok_next: "IRQ_QUEUE_NEXT i < 64"
  by (simp add: IRQ_QUEUE_NEXT_mod)

text \<open>
  No step stores \<^verbatim>\<open>NULL\<close> in a queue: \<^verbatim>\<open>vgic_dist_set_pending_irq\<close>, the only caller of
  \<^verbatim>\<open>vgic_irq_enqueue\<close>, passes the handler it has just found.
\<close>

lemma queues_non_null_registers:
  "queues_non_null (vg\<lparr>registers := d\<rparr>) = queues_non_null vg"
  by (simp add: queues_non_null_def)

lemma queues_non_null_cong:
  "irq_queue vg' = irq_queue vg \<Longrightarrow> queues_non_null vg' = queues_non_null vg"
  by (simp add: queues_non_null_def)

lemma enqueue_queues:
  assumes "queues_non_null vg"
  shows "queues_non_null (snd (vgic_irq_enqueue vg vcpu (Some h)))"
proof (cases "IRQ_QUEUE_NEXT (tail (irq_queue vg vcpu)) = head (irq_queue vg vcpu)")
  case True
  with assms show ?thesis by (simp add: vgic_irq_enqueue_def)
next
  case False
  let ?q = "irq_queue vg vcpu"
  let ?q' = "?q\<lparr>irqs := (irqs ?q)(tail ?q := Some h), tail := IRQ_QUEUE_NEXT (tail ?q)\<rparr>"
  from assms have ok: "queue_ok ?q" and nn: "None \<notin> set (queue_list ?q)"
    by (simp_all add: queues_non_null_def)
  have l: "queue_list ?q' = queue_list ?q @ [Some h]" using ok False by (rule queue_list_push)
  have o: "queue_ok ?q'" using ok by (simp add: queue_ok_def queue_ok_next)
  have "irq_queue (snd (vgic_irq_enqueue vg vcpu (Some h))) = (irq_queue vg)(vcpu := ?q')"
    using False by (simp add: vgic_irq_enqueue_def Let_def)
  with assms l o nn show ?thesis by (simp add: queues_non_null_def)
qed

lemma dequeue_queues:
  assumes "queues_non_null vg"
  shows "queues_non_null (snd (vgic_irq_dequeue vg vcpu))"
proof (cases "head (irq_queue vg vcpu) = tail (irq_queue vg vcpu)")
  case True
  with assms show ?thesis by (simp add: vgic_irq_dequeue_def)
next
  case False
  let ?q = "irq_queue vg vcpu"
  let ?q' = "?q\<lparr>head := IRQ_QUEUE_NEXT (head ?q)\<rparr>"
  from assms have ok: "queue_ok ?q" and nn: "None \<notin> set (queue_list ?q)"
    by (simp_all add: queues_non_null_def)
  have "queue_list ?q = irqs ?q (head ?q) # queue_list ?q'" using ok False by (rule queue_list_pop)
  with nn have l: "None \<notin> set (queue_list ?q')" by auto
  have o: "queue_ok ?q'" using ok by (simp add: queue_ok_def queue_ok_next)
  have "irq_queue (snd (vgic_irq_dequeue vg vcpu)) = (irq_queue vg)(vcpu := ?q')"
    using False by (simp add: vgic_irq_dequeue_def Let_def)
  with assms l o show ?thesis by (simp add: queues_non_null_def)
qed

lemma set_pending_irq_queues:
  assumes "vgic_dist_set_pending_irq hc vg vcpu irq = Some (r, vg')" "queues_non_null vg"
  shows "queues_non_null vg'"
proof (cases "virq_find_irq_data vg vcpu irq")
  case None
  with assms show ?thesis by (simp add: vgic_dist_set_pending_irq_def)
next
  case (Some h)
  let ?vg1 = "vg\<lparr>registers := set_pending (registers vg) (virq h) True vcpu\<rparr>"
  obtain err vg2 where e: "vgic_irq_enqueue ?vg1 vcpu (Some h) = (err, vg2)"
    by (cases "vgic_irq_enqueue ?vg1 vcpu (Some h)")
  obtain v vg3 where d: "vgic_irq_dequeue vg2 vcpu = (v, vg3)"
    by (cases "vgic_irq_dequeue vg2 vcpu")
  have "queues_non_null ?vg1" using assms(2) by (simp add: queues_non_null_registers)
  then have q2: "queues_non_null vg2" using enqueue_queues [of ?vg1 vcpu h] e by simp
  then have q3: "queues_non_null vg3" using dequeue_queues [of vg2 vcpu] d by simp
  have q4: "queues_non_null s" if "vgic_vcpu_load_list_reg hc vg3 vcpu i w = (r', s)" for i w r' s
    using q3 load_list_reg_frame(4) [OF that] by (simp add: queues_non_null_def)
  from assms Some e d q2 q4 show ?thesis
    by (auto simp: vgic_dist_set_pending_irq_def Let_def split: if_splits option.splits)
qed

lemma enable_irq_queues:
  "queues_non_null (snd (vgic_dist_enable_irq vg vcpu irq)) = queues_non_null vg"
  using enable_irq_frame(4) [of vg vcpu irq "fst (vgic_dist_enable_irq vg vcpu irq)"
      "snd (vgic_dist_enable_irq vg vcpu irq)"]
  by (simp add: queues_non_null_def)

lemma write_reg_queues:
  assumes "vgic_dist_write_reg hc m vg vcpu offset f = Some vg'" "queues_non_null vg"
  shows "queues_non_null vg'"
proof -
  from assms show ?thesis
    unfolding vgic_dist_write_reg_def Let_def
    by (auto split: if_splits option.splits
        simp: enable_irq_queues vm_inject_irq_def queues_non_null_registers
          vgic_dist_enable_def vgic_dist_disable_def
        elim!: for_each_set_bit_inv [where P = queues_non_null, rotated 2]
          sgir_forward_inv [where P = queues_non_null, rotated 2]
        dest: set_pending_irq_queues)
qed

lemma fault_queues:
  assumes "handle_vgic_dist_fault hc m pstart vg vcpu fault = Some (r, fault', vg')"
    "queues_non_null vg"
  shows "queues_non_null vg'"
  using assms
  by (auto simp: handle_vgic_dist_fault_def handle_vgic_dist_write_fault_def Let_def
      split: if_splits option.splits prod.splits dest: write_reg_queues)

lemma spi_add_from_queues:
  "irq_queue (snd (virq_spi_add_from vg h i)) = irq_queue vg"
  by (induction vg h i rule: virq_spi_add_from.induct)
     (subst virq_spi_add_from.simps, simp)

lemma virq_add_queues: "queues_non_null (snd (virq_add vcpu vg h)) = queues_non_null vg"
  by (simp add: virq_add_def virq_spi_add_def virq_sgi_ppi_add_def spi_add_from_queues Let_def
      queues_non_null_def)

lemma reachable_queues: "reachable vg \<Longrightarrow> queues_non_null vg"
proof (induction rule: reachable.induct)
  case reach_init
  show ?case
    by (simp add: queues_non_null_def vgic_empty_def irq_queue_empty_def queue_ok_def
        queue_list_def)
next
  case (reach_register vg vcpu virq_data)
  then show ?case by (simp add: virq_add_queues)
next
  case (reach_fault vg hc m pstart vcpu fault r fault' vg')
  then show ?case using fault_queues by blast
next
  case (reach_enable_irq vg vcpu irq)
  then show ?case by (simp add: enable_irq_queues)
next
  case (reach_set_pending_irq vg hc vcpu irq r vg')
  then show ?case using set_pending_irq_queues by blast
next
  case (reach_inject_irq vg hc vcpu irq r vg')
  then show ?case using set_pending_irq_queues unfolding vm_inject_irq_def by blast
next
  case (reach_dequeue vg vcpu)
  then show ?case by (simp add: dequeue_queues)
qed (simp_all add: queues_non_null_def load_list_reg_snd shadow_irq_frame)

text \<open>
  The state with a waiting interrupt is reached by registering SPI 42, a guest write
  enabling the distributor, enabling the interrupt, four list-register loads, and a
  set-pending that finds no free list register.
\<close>

lemma queued_example_reachable: "reachable queued_example"
proof -
  let ?h = "virq_init 42 7 0"
  let ?hc = "\<lambda>_ _ _. 0 :: int"
  let ?s1 = "vgic_empty\<lparr>virqs := (\<lambda>_. None)(0 := Some ?h)\<rparr>"
  let ?s2 = "?s1\<lparr>registers := gic_dist_zero\<lparr>enable := 1\<rparr>\<rparr>"
  let ?d3 = "gic_dist_zero\<lparr>enable := 1,
                  enable_set := (\<lambda>_. 0)(1 := 0x400), enable_clr := (\<lambda>_. 0)(1 := 0x400)\<rparr>"
  let ?s3 = "?s1\<lparr>registers := ?d3, acked := [(0, ?h)]\<rparr>"
  let ?l1 = "(\<lambda>_ _. None)(0 := (\<lambda>_. None)(0 := Some ?h))"
  let ?l2 = "(\<lambda>_ _. None)(0 := (\<lambda>_. None)(0 := Some ?h, 1 := Some ?h))"
  let ?l3 = "(\<lambda>_ _. None)(0 := (\<lambda>_. None)(0 := Some ?h, 1 := Some ?h, 2 := Some ?h))"
  let ?l4 = "(\<lambda>_ _. None)(0 := (\<lambda>_. None)(0 := Some ?h, 1 := Some ?h, 2 := Some ?h, 3 := Some ?h))"
  let ?s7 = "?s3\<lparr>lr_shadow := ?l4\<rparr>"
  have e1: "snd (virq_add 0 vgic_empty ?h) = ?s1"
    by (simp add: virq_add_def virq_init_def virq_spi_add_def virq_spi_add_from.simps vgic_empty_def)
  have e2: "handle_vgic_dist_fault ?hc one_vcpu_vm 0 ?s1 0 ctlr_enable_write
      = Some (FAULT_HANDLED, ctlr_enable_write\<lparr>fault_stage := FAULT_IGNORED\<rparr>, ?s2)"
    by (simp add: handle_vgic_dist_fault_def handle_vgic_dist_write_fault_def vgic_dist_write_reg_def
      fault_is_read_def fault_get_address_def fault_get_data_def fault_get_data_mask_def
      ignore_fault_def RANGE32_def ctlr_enable_write_def vgic_empty_def
      vgic_dist_enable_def gic_dist_enable_def Let_def)
  have e3: "snd (vgic_dist_enable_irq ?s2 0 42) = ?s3"
    by (simp add: vgic_dist_enable_irq_def virq_find_irq_data_def virq_find_spi_irq_data_def
        virq_find_spi_from.simps virq_init_def virq_ack_def set_enable_def set_spi_enable_def
        is_pending_def is_spi_pending_def IRQ_IDX_def IRQ_BIT_def vgic_empty_def gic_dist_zero_def
        Let_def)
  have e4: "snd (vgic_vcpu_load_list_reg ?hc ?s3 0 0 ?h) = ?s3\<lparr>lr_shadow := ?l1\<rparr>"
    by (simp add: vgic_vcpu_load_list_reg_def vgic_shadow_irq_def vgic_empty_def)
  have e5: "snd (vgic_vcpu_load_list_reg ?hc (?s3\<lparr>lr_shadow := ?l1\<rparr>) 0 1 ?h) = ?s3\<lparr>lr_shadow := ?l2\<rparr>"
    by (simp add: vgic_vcpu_load_list_reg_def vgic_shadow_irq_def vgic_empty_def)
  have e6: "snd (vgic_vcpu_load_list_reg ?hc (?s3\<lparr>lr_shadow := ?l2\<rparr>) 0 2 ?h) = ?s3\<lparr>lr_shadow := ?l3\<rparr>"
    by (simp add: vgic_vcpu_load_list_reg_def vgic_shadow_irq_def vgic_empty_def)
  have e7: "snd (vgic_vcpu_load_list_reg ?hc (?s3\<lparr>lr_shadow := ?l3\<rparr>) 0 3 ?h) = ?s7"
    by (simp add: vgic_vcpu_load_list_reg_def vgic_shadow_irq_def vgic_empty_def)
  have f: "virq_find_irq_data ?s7 0 42 = Some ?h" "virq ?h = 42"
    "gic_dist_is_enabled (registers ?s7)" "is_enabled (registers ?s7) 42 0"
    "\<not> is_pending (registers ?s7) 42 0"
    by (simp_all add: vgic_empty_def gic_dist_zero_def
      virq_find_irq_data_def virq_find_spi_irq_data_def virq_find_spi_from.simps virq_init_def
      gic_dist_is_enabled_def is_enabled_def is_spi_enabled_def is_pending_def is_spi_pending_def
      IRQ_IDX_def IRQ_BIT_def)
  have lr: "vgic_find_empty_list_reg (?s7\<lparr>registers := d, irq_queue := x\<rparr>) 0 = -1" for d x
    by (simp add: vgic_find_empty_list_reg_def vgic_find_empty_list_reg_from.simps vgic_empty_def)
  have en: "vgic_irq_enqueue (?s7\<lparr>registers := d\<rparr>) 0 (Some ?h)
      = (0, ?s7\<lparr>registers := d, irq_queue := (\<lambda>_. irq_queue_empty)
                     (0 := \<lparr>irqs = (\<lambda>_. None)(0 := Some ?h), head = 0, tail = 1\<rparr>)\<rparr>)" for d
    by (simp add: vgic_irq_enqueue_def vgic_empty_def irq_queue_empty_def IRQ_QUEUE_NEXT_mod)
  have e8: "vgic_dist_set_pending_irq ?hc ?s7 0 42 = Some (0, queued_example)"
    unfolding vgic_dist_set_pending_irq_def Let_def f(1) f(2) option.case
    by (simp only: f simp_thms if_False en lr prod.case)
       (simp add: queued_example_def vgic_example_def vgic_empty_def gic_dist_zero_def
          set_pending_def set_spi_pending_def IRQ_IDX_def IRQ_BIT_def)
  have "reachable ?s1" using reach_register [OF reach_init, of 0 ?h] unfolding e1 .
  then have "reachable ?s2" by (rule reach_fault [OF _ e2])
  then have "reachable ?s3" using reach_enable_irq [of ?s2 0 42] unfolding e3 by simp
  then have "reachable (?s3\<lparr>lr_shadow := ?l1\<rparr>)"
    using reach_load_list_reg [of ?s3 ?hc 0 0 ?h] unfolding e4 by simp
  then have "reachable (?s3\<lparr>lr_shadow := ?l2\<rparr>)"
    using reach_load_list_reg [of "?s3\<lparr>lr_shadow := ?l1\<rparr>" ?hc 0 1 ?h] unfolding e5 by simp
  then have "reachable (?s3\<lparr>lr_shadow := ?l3\<rparr>)"
    using reach_load_list_reg [of "?s3\<lparr>lr_shadow := ?l2\<rparr>" ?hc 0 2 ?h] unfolding e6 by simp
  then have "reachable ?s7"
    using reach_load_list_reg [of "?s3\<lparr>lr_shadow := ?l3\<rparr>" ?hc 0 3 ?h] unfolding e7 by simp
  then show ?thesis by (rule reach_set_pending_irq [OF _ e8])
qed

text \<open>
  Claim C8. For every vCPU, \<^verbatim>\<open>vgic_irq_enqueue\<close> returns \<open>-1\<close> exactly when
  \<^verbatim>\<open>IRQ_QUEUE_NEXT(tail) == head\<close>, and then changes nothing; otherwise it returns \<open>0\<close>,
  stores the handler at \<open>tail\<close> and advances \<open>tail\<close> by \<^verbatim>\<open>IRQ_QUEUE_NEXT\<close>, which appends
  the handler to the waiting list. \<^verbatim>\<open>vgic_irq_dequeue\<close> returns \<^verbatim>\<open>NULL\<close> and changes
  nothing when \<open>head == tail\<close>; otherwise it returns the slot at \<open>head\<close>, which is the
  oldest waiting handler, and advances \<open>head\<close>, which removes it from the front of the
  list. So handlers leave in arrival order. In every reachable state the ring indices
  are below \<open>MAX_IRQ_QUEUE_LEN\<close>, no waiting handler is \<^verbatim>\<open>NULL\<close>, and \<^verbatim>\<open>vgic_irq_dequeue\<close>
  returns \<^verbatim>\<open>NULL\<close> exactly when \<open>head == tail\<close>. The list is empty exactly when
  \<open>head == tail\<close>, has \<open>MAX_IRQ_QUEUE_LEN - 1\<close> entries exactly when the ring is full, and
  never holds \<open>MAX_IRQ_QUEUE_LEN\<close> entries.
\<close>

theorem irq_queue_ring:
  fixes vg :: vgic and vcpu :: nat and x :: "virq_handle option"
  defines "q \<equiv> irq_queue vg vcpu"
    and "en \<equiv> vgic_irq_enqueue vg vcpu x"
    and "de \<equiv> vgic_irq_dequeue vg vcpu"
  shows "(fst en = -1 \<longleftrightarrow> IRQ_QUEUE_NEXT (tail q) = head q)
   \<and> (IRQ_QUEUE_NEXT (tail q) = head q \<longrightarrow> en = (-1, vg))
   \<and> (IRQ_QUEUE_NEXT (tail q) \<noteq> head q \<longrightarrow>
        en = (0, vg\<lparr>irq_queue := (irq_queue vg)
                (vcpu := q\<lparr>irqs := (irqs q)(tail q := x), tail := IRQ_QUEUE_NEXT (tail q)\<rparr>)\<rparr>)
        \<and> (queue_ok q \<longrightarrow> queue_ok (irq_queue (snd en) vcpu)
              \<and> queue_list (irq_queue (snd en) vcpu) = queue_list q @ [x]))
   \<and> (head q = tail q \<longrightarrow> de = (None, vg))
   \<and> (head q \<noteq> tail q \<longrightarrow>
        de = (irqs q (head q),
              vg\<lparr>irq_queue := (irq_queue vg)(vcpu := q\<lparr>head := IRQ_QUEUE_NEXT (head q)\<rparr>)\<rparr>)
        \<and> (queue_ok q \<longrightarrow> queue_ok (irq_queue (snd de) vcpu)
              \<and> queue_list q = fst de # queue_list (irq_queue (snd de) vcpu)))
   \<and> (reachable vg \<longrightarrow> queue_ok q \<and> None \<notin> set (queue_list q)
        \<and> (fst de = None \<longleftrightarrow> head q = tail q))
   \<and> (queue_ok q \<longrightarrow> length (queue_list q) < MAX_IRQ_QUEUE_LEN
        \<and> (queue_list q = [] \<longleftrightarrow> head q = tail q)
        \<and> (length (queue_list q) = MAX_IRQ_QUEUE_LEN - 1 \<longleftrightarrow> IRQ_QUEUE_NEXT (tail q) = head q))"
proof -
  have e_full: "IRQ_QUEUE_NEXT (tail q) = head q \<Longrightarrow> en = (-1, vg)"
    by (simp add: en_def q_def vgic_irq_enqueue_def)
  have e_ok: "en = (0, vg\<lparr>irq_queue := (irq_queue vg)
                (vcpu := q\<lparr>irqs := (irqs q)(tail q := x), tail := IRQ_QUEUE_NEXT (tail q)\<rparr>)\<rparr>)"
    if "IRQ_QUEUE_NEXT (tail q) \<noteq> head q"
    using that by (simp add: en_def q_def vgic_irq_enqueue_def Let_def)
  have e_list: "queue_ok (irq_queue (snd en) vcpu)
      \<and> queue_list (irq_queue (snd en) vcpu) = queue_list q @ [x]"
    if "IRQ_QUEUE_NEXT (tail q) \<noteq> head q" "queue_ok q"
    using that queue_list_push [OF that(2,1), of x]
    by (simp add: e_ok queue_ok_def queue_ok_next)
  have d_empty: "head q = tail q \<Longrightarrow> de = (None, vg)"
    by (simp add: de_def q_def vgic_irq_dequeue_def)
  have d_ok: "de = (irqs q (head q),
              vg\<lparr>irq_queue := (irq_queue vg)(vcpu := q\<lparr>head := IRQ_QUEUE_NEXT (head q)\<rparr>)\<rparr>)"
    if "head q \<noteq> tail q"
    using that by (simp add: de_def q_def vgic_irq_dequeue_def Let_def)
  have d_list: "queue_ok (irq_queue (snd de) vcpu)
      \<and> queue_list q = fst de # queue_list (irq_queue (snd de) vcpu)"
    if "head q \<noteq> tail q" "queue_ok q"
    using that queue_list_pop [OF that(2,1)]
    by (simp add: d_ok queue_ok_def queue_ok_next)
  have d_null: "queue_ok q \<and> None \<notin> set (queue_list q) \<and> (fst de = None \<longleftrightarrow> head q = tail q)"
    if "reachable vg"
  proof -
    from reachable_queues [OF that] have ok: "queue_ok q" and nn: "None \<notin> set (queue_list q)"
      by (simp_all add: queues_non_null_def q_def)
    have "fst de = None \<longleftrightarrow> head q = tail q"
    proof (cases "head q = tail q")
      case True
      then show ?thesis by (simp add: d_empty)
    next
      case False
      from d_list [OF False ok] nn have "fst de \<noteq> None"
        by (cases "fst de") auto
      with False show ?thesis by simp
    qed
    with ok nn show ?thesis by simp
  qed
  have size: "length (queue_list q) < 64 \<and> (queue_list q = [] \<longleftrightarrow> head q = tail q)
        \<and> (length (queue_list q) = 63 \<longleftrightarrow> IRQ_QUEUE_NEXT (tail q) = head q)"
    if "queue_ok q"
  proof -
    from that have h: "head q < 64" and t: "tail q < 64" by (simp_all add: queue_ok_def)
    have "queue_list q = [] \<longleftrightarrow> length (queue_list q) = 0" by simp
    also have "\<dots> \<longleftrightarrow> head q = tail q"
      unfolding queue_list_length by (rule ring_empty [OF h t])
    finally show ?thesis
      using ring_full [OF h t] by (simp add: queue_list_length IRQ_QUEUE_NEXT_mod)
  qed
  have e_ret: "fst en = -1 \<longleftrightarrow> IRQ_QUEUE_NEXT (tail q) = head q"
    using e_full e_ok by (cases "IRQ_QUEUE_NEXT (tail q) = head q") simp_all
  from e_ret e_full e_ok e_list d_empty d_ok d_list d_null size show ?thesis
    by (intro conjI impI) simp_all
qed

text \<open>
  The theorem on the empty ring of vCPU 0: one enqueue, then one dequeue; and at the
  reachable state with a waiting interrupt, where the dequeue returns the handler.
\<close>

theorem irq_queue_ring_witness:
  "queue_ok (irq_queue vgic_empty 0)
   \<and> queue_list (irq_queue vgic_empty 0) = []
   \<and> vgic_irq_dequeue vgic_empty 0 = (None, vgic_empty)
   \<and> fst (vgic_irq_enqueue vgic_empty 0 (Some (virq_init 33 0 0))) = 0
   \<and> queue_list (irq_queue (snd (vgic_irq_enqueue vgic_empty 0 (Some (virq_init 33 0 0)))) 0)
       = [Some (virq_init 33 0 0)]
   \<and> fst (vgic_irq_dequeue (snd (vgic_irq_enqueue vgic_empty 0 (Some (virq_init 33 0 0)))) 0)
       = Some (virq_init 33 0 0)
   \<and> queue_list (irq_queue (snd (vgic_irq_dequeue
          (snd (vgic_irq_enqueue vgic_empty 0 (Some (virq_init 33 0 0)))) 0)) 0) = []
   \<and> reachable vgic_empty
   \<and> reachable queued_example
   \<and> head (irq_queue queued_example 0) = 0 \<and> tail (irq_queue queued_example 0) = 1
   \<and> queue_list (irq_queue queued_example 0) = [Some (virq_init 42 7 0)]
   \<and> fst (vgic_irq_dequeue queued_example 0) = Some (virq_init 42 7 0)"
proof -
  let ?a = "Some (virq_init 33 0 0)"
  let ?e = "snd (vgic_irq_enqueue vgic_empty 0 ?a)"
  have q0: "head (irq_queue vgic_empty 0) = 0" "tail (irq_queue vgic_empty 0) = 0"
    "queue_ok (irq_queue vgic_empty 0)" "queue_list (irq_queue vgic_empty 0) = []"
    "IRQ_QUEUE_NEXT 0 = 1"
    by (simp_all add: vgic_empty_def irq_queue_empty_def queue_ok_def queue_list_def
        IRQ_QUEUE_NEXT_mod)
  have nf: "IRQ_QUEUE_NEXT (tail (irq_queue vgic_empty 0)) \<noteq> head (irq_queue vgic_empty 0)"
    by (simp add: q0)
  note s0 = irq_queue_ring [of vgic_empty 0 ?a]
  from s0 q0(1,2) have d0: "vgic_irq_dequeue vgic_empty 0 = (None, vgic_empty)" by simp
  from s0 nf have e0: "fst (vgic_irq_enqueue vgic_empty 0 ?a) = 0" by simp
  from s0 nf q0(3) have e1: "queue_ok (irq_queue ?e 0)"
    and e2: "queue_list (irq_queue ?e 0) = queue_list (irq_queue vgic_empty 0) @ [?a]"
    by blast+
  have ne: "head (irq_queue ?e 0) \<noteq> tail (irq_queue ?e 0)"
    by (simp add: vgic_irq_enqueue_def Let_def q0)
  note s1 = irq_queue_ring [of ?e 0 None]
  from s1 ne e1 have d1: "queue_list (irq_queue ?e 0)
      = fst (vgic_irq_dequeue ?e 0) # queue_list (irq_queue (snd (vgic_irq_dequeue ?e 0)) 0)"
    by blast
  have qe: "head (irq_queue queued_example 0) = 0" "tail (irq_queue queued_example 0) = 1"
    by (simp_all add: queued_example_def)
  then have qn: "head (irq_queue queued_example 0) \<noteq> tail (irq_queue queued_example 0)" by simp
  note s2 = irq_queue_ring [of queued_example 0 None]
  from s2 qn queued_example_reachable
  have d2: "queue_list (irq_queue queued_example 0) = fst (vgic_irq_dequeue queued_example 0)
              # queue_list (irq_queue (snd (vgic_irq_dequeue queued_example 0)) 0)"
    and n2: "fst (vgic_irq_dequeue queued_example 0) \<noteq> None"
    by blast+
  have l2: "queue_list (irq_queue queued_example 0) = [Some (virq_init 42 7 0)]"
    by (simp add: queue_list_def qe queued_example_def)
  from d2 l2 have f2: "fst (vgic_irq_dequeue queued_example 0) = Some (virq_init 42 7 0)" by simp
  from q0(3,4) d0 e0 e2 d1 [unfolded e2 q0(4)] reach_init queued_example_reachable qe l2 f2
  show ?thesis by simp
qed

section \<open>Writing ICENABLER, reading ISENABLER\<close>

lemma for_each_set_bit_total:
  "(\<And>i s. f i s \<noteq> None) \<Longrightarrow> for_each_set_bit f d s \<noteq> None"
proof (induction f d s rule: for_each_set_bit.induct)
  case (1 f d s)
  show ?case
  proof (cases "d = 0")
    case True
    then show ?thesis by (simp add: for_each_set_bit.simps)
  next
    case False
    from "1.prems" [of "CTZ d" s] obtain s1 where s1: "f (CTZ d) s = Some s1" by auto
    from "1.IH" [OF False refl refl s1 "1.prems"] False s1 show ?thesis
      by (subst for_each_set_bit.simps) (simp add: Let_def)
  qed
qed

lemma clear_step_bits:
  fixes a d M :: u32
  assumes "bit d i"
  shows "(a AND NOT (push_bit i 1 AND M)) AND NOT ((d AND NOT (push_bit i 1)) AND M)
         = a AND NOT (d AND M)"
  using assms by (intro bit_eqI) (auto simp: bit_simps)

lemma for_each_set_bit_clears:
  fixes g :: "'s \<Rightarrow> u32"
  shows "(\<And>i s s'. i < 32 \<Longrightarrow> f i s = Some s' \<Longrightarrow> g s' = g s AND NOT (push_bit i 1 AND M)) \<Longrightarrow>
   for_each_set_bit f d s = Some s' \<Longrightarrow> g s' = g s AND NOT (d AND M)"
proof (induction f d s rule: for_each_set_bit.induct)
  case (1 f d s)
  show ?case
  proof (cases "d = 0")
    case True
    with "1.prems" show ?thesis by (simp add: for_each_set_bit.simps)
  next
    case False
    with "1.prems"(2) obtain s1 where s1: "f (CTZ d) s = Some s1"
      and rest: "for_each_set_bit f (d AND NOT (push_bit (CTZ d) 1)) s1 = Some s'"
      by (subst (asm) for_each_set_bit.simps) (auto simp: Let_def split: option.splits)
    from CTZ_bit [OF False] have b: "bit d (CTZ d)" and l: "CTZ d < 32" by simp_all
    from "1.prems"(1) [OF l s1] have g1: "g s1 = g s AND NOT (push_bit (CTZ d) 1 AND M)" .
    from "1.IH" [OF False refl refl s1 "1.prems"(1) rest]
    have "g s' = g s1 AND NOT ((d AND NOT (push_bit (CTZ d) 1)) AND M)" by simp
    then show ?thesis unfolding g1 by (simp only: clear_step_bits [OF b])
  qed
qed

lemma bit_upper_half: "bit (0xFFFF0000 :: u32) j \<longleftrightarrow> 16 \<le> j \<and> j < 32"
proof -
  have e: "(0xFFFF0000 :: u32) = NOT (mask 16)" by (simp add: mask_numeral)
  show ?thesis unfolding e by (auto simp: bit_simps)
qed

lemma single_bit_and:
  fixes M :: u32
  shows "push_bit i 1 AND M = (if bit M i then push_bit i 1 else 0)"
  by (intro bit_eqI) (auto simp: bit_simps)

lemma disable_irq_step:
  assumes "i < 32"
  shows "enable_set0 (snd (vgic_dist_disable_irq d vcpu i)) vcpu
         = enable_set0 d vcpu AND NOT (push_bit i 1 AND 0xFFFF0000)"
proof (cases "i < 16")
  case True
  with bit_upper_half [of i] have "push_bit i 1 AND (0xFFFF0000 :: u32) = 0"
    by (simp only: single_bit_and) simp
  then show ?thesis using True by (simp add: vgic_dist_disable_irq_def)
next
  case False
  with assms bit_upper_half [of i] have "push_bit i 1 AND (0xFFFF0000 :: u32) = push_bit i 1"
    by (simp only: single_bit_and) simp
  then show ?thesis using False assms
    by (simp add: vgic_dist_disable_irq_def set_enable_def set_sgi_ppi_enable_def IRQ_BIT_def)
qed

lemma full_mask: "(0xFFFFFFFF :: u32) = -1"
  by simp

lemma write_reg_icenabler0:
  assumes "fault_get_data_mask wr = 0xFFFFFFFF"
  shows "\<exists>vg'. vgic_dist_write_reg hc m vg vcpu GIC_DIST_ICENABLER0 wr = Some vg'
          \<and> enable_set0 (registers vg') vcpu
              = enable_set0 (registers vg) vcpu AND NOT (fault_get_data wr AND 0xFFFF0000)"
proof -
  let ?f = "\<lambda>irq vg. Some (vg\<lparr>registers := snd (vgic_dist_disable_irq (registers vg) vcpu irq)\<rparr>)"
  have w: "vgic_dist_write_reg hc m vg vcpu GIC_DIST_ICENABLER0 wr
           = for_each_set_bit ?f (fault_get_data wr) vg"
    using assms by (simp add: vgic_dist_write_reg_def RANGE32_def Let_def full_mask)
  have "for_each_set_bit ?f (fault_get_data wr) vg \<noteq> None"
    by (rule for_each_set_bit_total) simp
  then obtain vg' where vg': "for_each_set_bit ?f (fault_get_data wr) vg = Some vg'" by auto
  have "enable_set0 (registers vg') vcpu
        = enable_set0 (registers vg) vcpu AND NOT (fault_get_data wr AND 0xFFFF0000)"
    by (rule for_each_set_bit_clears [where f = ?f and g = "\<lambda>s. enable_set0 (registers s) vcpu", OF _ vg'])
       (auto simp: disable_irq_step)
  with w vg' show ?thesis by simp
qed

text \<open>
  Claim C6, as amended. For every 32-bit value \<open>W\<close> that the guest writes to ICENABLER0
  with a full data mask, the write handler returns, and a subsequent read of
  ISENABLER0 by the same vCPU returns \<open>prior_enabled & ~(W & 0xFFFF0000)\<close>, where
  \<open>prior_enabled\<close> is what the read returned before the write: the bits of the SGIs
  (0 to 15) are never cleared.
\<close>

theorem icenabler0_isenabler0:
  assumes "fault_get_address wr - pstart = GIC_DIST_ICENABLER0"
    and "fault_get_data_mask wr = 0xFFFFFFFF"
    and "fault_get_address rd - pstart = GIC_DIST_ISENABLER0"
    and "fault_get_data_mask rd = 0xFFFFFFFF"
  shows "\<exists>r wr' vg'. handle_vgic_dist_write_fault hc m pstart vg vcpu wr = Some (r, wr', vg')
     \<and> fault_get_data (snd (handle_vgic_dist_read_fault pstart vg' vcpu rd))
         = fault_get_data (snd (handle_vgic_dist_read_fault pstart vg vcpu rd))
             AND NOT (fault_get_data wr AND 0xFFFF0000)"
proof -
  from write_reg_icenabler0 [OF assms(2), of hc m vg vcpu] obtain vg' where
    w: "vgic_dist_write_reg hc m vg vcpu GIC_DIST_ICENABLER0 wr = Some vg'"
    and e: "enable_set0 (registers vg') vcpu
              = enable_set0 (registers vg) vcpu AND NOT (fault_get_data wr AND 0xFFFF0000)"
    by blast
  have rd: "fault_get_data (snd (handle_vgic_dist_read_fault pstart s vcpu rd))
            = enable_set0 (registers s) vcpu" for s
    using assms(3,4)
    by (simp add: handle_vgic_dist_read_fault_def vgic_dist_read_reg_def RANGE32_def Let_def
        fault_set_data_def advance_fault_def fault_get_data_def full_mask split: prod.splits)
  from w assms(1) have "handle_vgic_dist_write_fault hc m pstart vg vcpu wr
      = Some (if ignore_status wr \<noteq> 0 then FAULT_ERROR else FAULT_HANDLED,
              wr\<lparr>fault_stage := FAULT_IGNORED\<rparr>, vg')"
    by (simp add: handle_vgic_dist_write_fault_def ignore_fault_def)
  with e rd show ?thesis by simp
qed

lemma isenabler0_read_value:
  "fault_get_data (snd (handle_vgic_dist_read_fault 0 s 0 isenabler0_read))
   = enable_set0 (registers s) 0"
  by (simp add: handle_vgic_dist_read_fault_def vgic_dist_read_reg_def RANGE32_def Let_def
      fault_set_data_def advance_fault_def fault_get_data_def fault_get_data_mask_def
      fault_get_address_def isenabler0_read_def full_mask)

text \<open>The theorem with SGI 0 and PPI 16 enabled and \<open>W = 0x10001\<close>: only bit 16 is cleared.\<close>

theorem icenabler0_isenabler0_witness:
  "fault_get_address (icenabler0_write 0x10001) - 0 = GIC_DIST_ICENABLER0
   \<and> fault_get_data_mask (icenabler0_write 0x10001) = 0xFFFFFFFF
   \<and> fault_get_address isenabler0_read - 0 = GIC_DIST_ISENABLER0
   \<and> fault_get_data_mask isenabler0_read = 0xFFFFFFFF
   \<and> fault_get_data (snd (handle_vgic_dist_read_fault 0 sgi0_ppi16_enabled 0 isenabler0_read))
       = 0x10001
   \<and> (\<exists>r wr' vg'.
         handle_vgic_dist_write_fault (\<lambda>_ _ _. 0) one_vcpu_vm 0 sgi0_ppi16_enabled 0
           (icenabler0_write 0x10001) = Some (r, wr', vg')
         \<and> fault_get_data (snd (handle_vgic_dist_read_fault 0 vg' 0 isenabler0_read)) = 1)"
proof -
  have a: "fault_get_address (icenabler0_write 0x10001) - 0 = GIC_DIST_ICENABLER0"
    "fault_get_data_mask (icenabler0_write 0x10001) = 0xFFFFFFFF"
    "fault_get_address isenabler0_read - 0 = GIC_DIST_ISENABLER0"
    "fault_get_data_mask isenabler0_read = 0xFFFFFFFF"
    by (simp_all add: icenabler0_write_def isenabler0_read_def fault_get_address_def
        fault_get_data_mask_def)
  have p: "fault_get_data (snd (handle_vgic_dist_read_fault 0 sgi0_ppi16_enabled 0 isenabler0_read))
       = 0x10001"
    by (simp add: isenabler0_read_value sgi0_ppi16_enabled_def)
  have v: "(0x10001 :: u32) AND NOT (fault_get_data (icenabler0_write 0x10001) AND 0xFFFF0000) = 1"
    by (simp add: icenabler0_write_def fault_get_data_def)
  from icenabler0_isenabler0 [OF a, of "\<lambda>_ _ _. 0" one_vcpu_vm sgi0_ppi16_enabled 0]
  show ?thesis unfolding p v using a p by simp
qed

text \<open>
  The claim as stated fails: with SGI 0 enabled (the state after
  \<^verbatim>\<open>vgic_dist_enable_irq\<close> of IRQ 0 on the empty \<^verbatim>\<open>vgic\<close>), ISENABLER0 reads \<open>1\<close>; the guest
  writes \<open>W = 1\<close> to ICENABLER0; the state is unchanged and ISENABLER0 still reads \<open>1\<close>,
  while \<open>prior_enabled & ~W\<close> is \<open>0\<close>.
\<close>

theorem icenabler_isenabler_counterexample:
  "snd (vgic_dist_enable_irq vgic_empty 0 0) = sgi0_enabled
   \<and> fault_get_data (snd (handle_vgic_dist_read_fault 0 sgi0_enabled 0 isenabler0_read)) = 1
   \<and> fault_get_data (icenabler0_write 1) = 1
   \<and> handle_vgic_dist_write_fault (\<lambda>_ _ _. 0) one_vcpu_vm 0 sgi0_enabled 0 (icenabler0_write 1)
       = Some (FAULT_HANDLED, (icenabler0_write 1)\<lparr>fault_stage := FAULT_IGNORED\<rparr>, sgi0_enabled)
   \<and> (1 :: u32) AND NOT 1 = 0"
proof -
  have c: "CTZ 1 = 0" by (simp add: CTZ_def numeral_eq_Suc)
  have "vgic_dist_write_reg (\<lambda>_ _ _. 0) one_vcpu_vm sgi0_enabled 0 GIC_DIST_ICENABLER0
          (icenabler0_write 1) = Some sgi0_enabled"
    by (simp add: vgic_dist_write_reg_def RANGE32_def Let_def full_mask icenabler0_write_def
        fault_get_data_def fault_get_data_mask_def for_each_set_bit.simps c
        vgic_dist_disable_irq_def)
  then have w: "handle_vgic_dist_write_fault (\<lambda>_ _ _. 0) one_vcpu_vm 0 sgi0_enabled 0 (icenabler0_write 1)
       = Some (FAULT_HANDLED, (icenabler0_write 1)\<lparr>fault_stage := FAULT_IGNORED\<rparr>, sgi0_enabled)"
    by (simp add: handle_vgic_dist_write_fault_def ignore_fault_def fault_get_address_def
        icenabler0_write_def)
  have r: "fault_get_data (snd (handle_vgic_dist_read_fault 0 sgi0_enabled 0 isenabler0_read)) = 1"
    unfolding isenabler0_read_value by (simp add: sgi0_enabled_def)
  have d: "fault_get_data (icenabler0_write 1) = 1"
    by (simp add: fault_get_data_def icenabler0_write_def)
  have s: "snd (vgic_dist_enable_irq vgic_empty 0 0) = sgi0_enabled"
    by (simp add: vgic_dist_enable_irq_def virq_find_irq_data_def virq_get_sgi_ppi_def Let_def
        set_enable_def set_sgi_ppi_enable_def IRQ_BIT_def sgi0_enabled_def vgic_empty_def
        gic_dist_zero_def)
  from s w r d show ?thesis by simp
qed

section \<open>SGIR dispatch\<close>

lemma sgir_forward_inject_each:
  "sgir_forward hc m tgt q i vg
   = inject_each hc q (filter (\<lambda>k. bit tgt k \<and> is_vcpu_online m k) [i..<num_vcpus m]) vg"
proof (induction hc m tgt q i vg rule: sgir_forward.induct)
  case (1 hc m tgt q i vg)
  show ?case
  proof (cases "i < num_vcpus m")
    case False
    then show ?thesis by (simp add: sgir_forward.simps)
  next
    case True
    then have u: "[i..<num_vcpus m] = i # [Suc i..<num_vcpus m]" by (rule upt_conv_Cons)
    show ?thesis
    proof (cases "\<not> bit tgt i \<or> \<not> is_vcpu_online m i")
      case skip: True
      from "1.IH"(1) [OF True skip] True skip show ?thesis
        by (subst sgir_forward.simps) (auto simp: u)
    next
      case call: False
      show ?thesis
      proof (cases "vm_inject_irq hc vg i q")
        case None
        with True call show ?thesis by (subst sgir_forward.simps) (simp add: u)
      next
        case (Some p)
        obtain err vg1 where p: "p = (err, vg1)" by (cases p)
        from "1.IH"(2) [OF True call Some [unfolded p] refl] True call Some p show ?thesis
          by (subst sgir_forward.simps) (simp add: u)
      qed
    qed
  qed
qed

lemma sgir_mode_bits: "drop_bit 24 (data AND push_bit 24 3) = take_bit 2 (drop_bit 24 (data :: u32))"
proof -
  have e: "(3 :: u32) = mask 2" by (simp add: mask_numeral)
  show ?thesis unfolding e by (rule bit_eqI) (auto simp: bit_simps)
qed

lemma sgir_list_bits:
  "drop_bit 16 (data AND push_bit 16 0xFF) = take_bit 8 (drop_bit 16 (data :: u32))"
proof -
  have e: "(0xFF :: u32) = mask 8" by (simp add: mask_numeral)
  show ?thesis unfolding e by (rule bit_eqI) (auto simp: bit_simps)
qed

lemma sgir_intid_bits: "data AND 0xF = take_bit 4 (data :: u32)"
proof -
  have e: "(0xF :: u32) = mask 4" by (simp add: mask_numeral)
  show ?thesis unfolding e by (simp add: take_bit_eq_mask)
qed

lemma sgir_target_list_alt:
  "sgir_target_list m vcpu_id data =
     (let mode = take_bit 2 (drop_bit 24 data)
      in if mode = 0 then Some (ucast (take_bit 8 (drop_bit 16 data)))
         else if mode = 1 then Some ((push_bit (num_vcpus m) 1 - 1) AND NOT (push_bit vcpu_id 1))
         else if mode = 2 then Some (push_bit vcpu_id 1)
         else None)"
  unfolding sgir_target_list_def sgir_mode_bits sgir_list_bits ..

lemma sgir_target_bits:
  assumes "sgir_target_list m vcpu_id data = Some tgt" "i < 16"
  shows "\<exists>cpus. sgir_claimed_mask m vcpu_id data = Some cpus \<and> bit cpus i = bit tgt i"
proof -
  let ?mode = "take_bit 2 (drop_bit 24 data)"
  consider (spec) "?mode = 0" | (others) "?mode \<noteq> 0" "?mode = 1"
    | (self) "?mode \<noteq> 0" "?mode \<noteq> 1" "?mode = 2"
    | (none) "?mode \<noteq> 0" "?mode \<noteq> 1" "?mode \<noteq> 2"
    by blast
  then show ?thesis
  proof cases
    case spec
    with assms have "tgt = ucast (take_bit 8 (drop_bit 16 data))"
      by (simp add: sgir_target_list_alt)
    with spec assms(2) show ?thesis
      by (simp add: sgir_claimed_mask_def bit_simps)
  next
    case others
    with assms have "tgt = (push_bit (num_vcpus m) 1 - 1) AND NOT (push_bit vcpu_id 1)"
      by (simp add: sgir_target_list_alt)
    then have "tgt = mask (num_vcpus m) AND NOT (push_bit vcpu_id 1)"
      by (simp add: mask_eq_exp_minus_1)
    moreover have "push_bit (num_vcpus m) (1::nat) - 1 = mask (num_vcpus m)"
      by (simp add: mask_eq_exp_minus_1)
    ultimately show ?thesis using others assms(2)
      by (auto simp add: sgir_claimed_mask_def bit_simps bit_unset_bit_iff)
  next
    case self
    with assms have "tgt = push_bit vcpu_id 1"
      by (simp add: sgir_target_list_alt)
    with self assms(2) show ?thesis
      by (auto simp add: sgir_claimed_mask_def bit_simps)
  next
    case none
    with assms show ?thesis
      by (simp add: sgir_target_list_alt)
  qed
qed

lemma sgir_target_none:
  "sgir_target_list m vcpu_id data = None \<longleftrightarrow> sgir_claimed_mask m vcpu_id data = None"
  by (simp add: sgir_target_list_alt sgir_claimed_mask_def Let_def)

lemma write_reg_sgir:
  assumes "RANGE32 GIC_DIST_SGIR GIC_DIST_SGIR offset"
  shows "vgic_dist_write_reg hc m vg vcpu_id offset fault =
     (case sgir_target_list m vcpu_id (fault_get_data fault) of
        None \<Rightarrow> Some vg
      | Some target_list \<Rightarrow>
          sgir_forward hc m target_list (unat (fault_get_data fault AND GIC_DIST_SGI_INTID_MASK)) 0 vg)"
  using assms by (simp add: vgic_dist_write_reg_def RANGE32_def Let_def)

text \<open>
  Up to 16 vCPUs the write has the effect of the injections that the target bitmask
  of the claim lists: \<^verbatim>\<open>inject_irq(i, virq)\<close> with \<open>virq\<close> = bits 3:0, once for each vCPU
  index \<open>i\<close> in \<open>[0, num_vcpus)\<close> whose bit is set in the mask and which is online, in
  increasing order; for the reserved filter mode nothing is injected.
\<close>

lemma sgir_dispatch_upto_16:
  assumes "RANGE32 GIC_DIST_SGIR GIC_DIST_SGIR offset" and "num_vcpus m \<le> 16"
  shows "vgic_dist_write_reg hc m vg vcpu_id offset fault =
     (case sgir_claimed_mask m vcpu_id (fault_get_data fault) of
        None \<Rightarrow> Some vg
      | Some cpus \<Rightarrow>
          inject_each hc (unat (take_bit 4 (fault_get_data fault)))
            (filter (\<lambda>i. bit cpus i \<and> is_vcpu_online m i) [0..<num_vcpus m]) vg)"
proof (cases "sgir_target_list m vcpu_id (fault_get_data fault)")
  case None
  then have "sgir_claimed_mask m vcpu_id (fault_get_data fault) = None"
    by (simp add: sgir_target_none)
  with None show ?thesis by (simp add: write_reg_sgir [OF assms(1)])
next
  case (Some tgt)
  from sgir_target_bits [OF Some, of 0] obtain cpus where
    cm: "sgir_claimed_mask m vcpu_id (fault_get_data fault) = Some cpus" by auto
  have bits: "bit cpus i = bit tgt i" if "i < 16" for i
    using sgir_target_bits [OF Some that] cm by simp
  have "filter (\<lambda>i. bit cpus i \<and> is_vcpu_online m i) [0..<num_vcpus m]
        = filter (\<lambda>i. bit tgt i \<and> is_vcpu_online m i) [0..<num_vcpus m]"
    using assms(2) by (intro filter_cong refl) (simp add: bits)
  with Some cm show ?thesis
    by (simp add: write_reg_sgir [OF assms(1)] sgir_forward_inject_each sgir_intid_bits)
qed

lemma sgir_others_mode: "take_bit 2 (drop_bit 24 (0x01000002 :: u32)) = 1"
  by simp

lemma vcpu16_enqueue: "vgic_irq_enqueue (vcpu16_sgi2\<lparr>registers := d\<rparr>) 16 (Some h)
           = (0, vcpu16_sgi2\<lparr>registers := d, irq_queue := (\<lambda>_. irq_queue_empty)
                 (16 := \<lparr>irqs = (\<lambda>_. None)(0 := Some h), head = 0, tail = 1\<rparr>)\<rparr>)"
    by (simp add: vgic_irq_enqueue_def vcpu16_sgi2_def vgic_empty_def irq_queue_empty_def
        IRQ_QUEUE_NEXT_mod)

lemma vcpu16_empty_lr: "vgic_find_empty_list_reg (vcpu16_sgi2\<lparr>registers := d, irq_queue := x\<rparr>) 16 = 0"
  by (simp add: vgic_find_empty_list_reg_def vgic_find_empty_list_reg_from.simps vcpu16_sgi2_def
      vgic_empty_def)

lemma vcpu16_dequeue: "vgic_irq_dequeue (vcpu16_sgi2\<lparr>registers := d, irq_queue := (\<lambda>_. irq_queue_empty)
                 (16 := \<lparr>irqs = (\<lambda>_. None)(0 := Some h), head = 0, tail = 1\<rparr>)\<rparr>) 16
     = (Some h, vcpu16_sgi2\<lparr>registers := d, irq_queue := (\<lambda>_. irq_queue_empty)
                 (16 := \<lparr>irqs = (\<lambda>_. None)(0 := Some h), head = 1, tail = 1\<rparr>)\<rparr>)"
  by (simp add: vgic_irq_dequeue_def IRQ_QUEUE_NEXT_mod)

lemma vcpu16_facts: "virq_find_irq_data vcpu16_sgi2 16 2 = Some (virq_init 2 7 0)"
    "gic_dist_is_enabled (registers vcpu16_sgi2)" "is_enabled (registers vcpu16_sgi2) 2 16"
    "\<not> is_pending (registers vcpu16_sgi2) 2 16"
    by (simp_all add: vcpu16_sgi2_def virq_find_irq_data_def virq_get_sgi_ppi_def
        gic_dist_is_enabled_def is_enabled_def is_sgi_ppi_enabled_def IRQ_BIT_def
        is_pending_def is_sgi_ppi_pending_def vgic_empty_def gic_dist_zero_def)

lemma vcpu16_sgi2_inject:
  "map_option (\<lambda>p. is_pending (registers (snd p)) 2 16)
     (vm_inject_irq (\<lambda>_ _ _. 0) vcpu16_sgi2 16 2) = Some True"
proof -
  let ?h = "virq_init 2 7 0"
  have v: "virq ?h = 2" by (simp add: virq_init_def)
  have "vgic_dist_set_pending_irq (\<lambda>_ _ _. 0) vcpu16_sgi2 16 2
        = Some (vgic_vcpu_load_list_reg (\<lambda>_ _ _. 0)
            (vcpu16_sgi2\<lparr>registers := set_pending (registers vcpu16_sgi2) 2 True 16,
               irq_queue := (\<lambda>_. irq_queue_empty)
                 (16 := \<lparr>irqs = (\<lambda>_. None)(0 := Some ?h), head = 1, tail = 1\<rparr>)\<rparr>) 16 0 ?h)"
    unfolding vgic_dist_set_pending_irq_def Let_def vcpu16_facts(1) v
    by (simp only: option.case vcpu16_facts(2,3,4) simp_thms if_False vcpu16_enqueue
        vcpu16_empty_lr vcpu16_dequeue prod.case)
       (simp add: v vcpu16_facts)
  then show ?thesis
    by (simp add: vm_inject_irq_def vgic_vcpu_load_list_reg_def vgic_shadow_irq_def
        is_pending_set_pending)
qed

lemma seventeen_claimed_mask: "sgir_claimed_mask seventeen_vcpu_vm 0 (fault_get_data (sgir_write 0x01000002))
           = Some (unset_bit 0 (push_bit 17 1 - 1))"
  by (simp add: sgir_claimed_mask_def sgir_others_mode fault_get_data_def sgir_write_def
      seventeen_vcpu_vm_def del: push_bit_of_1)

lemma seventeen_claimed_bit: "bit (unset_bit 0 (push_bit 17 1 - 1) :: nat) 16"
proof -
  have "push_bit 17 (1::nat) - 1 = mask 17" by (simp add: mask_eq_exp_minus_1)
  then show ?thesis by (simp add: bit_simps bit_unset_bit_iff del: push_bit_of_1)
qed

lemma seventeen_online: "16 < num_vcpus seventeen_vcpu_vm" "is_vcpu_online seventeen_vcpu_vm 16"
  by (simp_all add: seventeen_vcpu_vm_def)

lemma seventeen_target_list:
  "sgir_target_list seventeen_vcpu_vm 0 (fault_get_data (sgir_write 0x01000002)) = Some 0xFFFE"
  by (simp add: sgir_target_list_alt sgir_others_mode fault_get_data_def sgir_write_def
      seventeen_vcpu_vm_def)

text \<open>
  Claim C7. For a guest write to SGIR with filter mode OTHERS the target bitmask is
  \<open>(1 << num_vcpus) - 1\<close> with the bit of the requesting vCPU cleared, and
  \<^verbatim>\<open>inject_irq(target_vcpu, virq)\<close> is called for each vCPU index in \<open>[0, num_vcpus)\<close> whose
  bit is set in the mask and which is online; the handler's own comment reads
  "Forward virq to all vcpus but the requesting vcpu". The handler does not do this
  in a VM with seventeen vCPUs, because \<^verbatim>\<open>target_list\<close> is a \<^verbatim>\<open>uint16_t\<close>: when vCPU 0
  writes OTHERS with SGI 2, the mask of the claim has bit 16 set and vCPU 16 is
  online, but the handler computes the target list \<open>0xFFFE\<close>, whose bit 16 is clear,
  and returns with the \<^verbatim>\<open>vgic\<close> unchanged and SGI 2 not pending on vCPU 16, whereas
  \<^verbatim>\<open>inject_irq(vcpu 16, 2)\<close> on that \<^verbatim>\<open>vgic\<close> makes SGI 2 pending on vCPU 16.
\<close>

theorem sgir_others_truncated:
  "sgir_claimed_mask seventeen_vcpu_vm 0 (fault_get_data (sgir_write 0x01000002))
     = Some (unset_bit 0 (push_bit 17 1 - 1))
   \<and> bit (unset_bit 0 (push_bit 17 1 - 1) :: nat) 16
   \<and> 16 < num_vcpus seventeen_vcpu_vm
   \<and> is_vcpu_online seventeen_vcpu_vm 16
   \<and> sgir_target_list seventeen_vcpu_vm 0 (fault_get_data (sgir_write 0x01000002)) = Some 0xFFFE
   \<and> bit (0xFFFE :: u16) 16 = False
   \<and> vgic_dist_write_reg (\<lambda>_ _ _. 0) seventeen_vcpu_vm vcpu16_sgi2 0 0xF00 (sgir_write 0x01000002)
       = Some vcpu16_sgi2
   \<and> is_pending (registers vcpu16_sgi2) 2 16 = False
   \<and> map_option (\<lambda>p. is_pending (registers (snd p)) 2 16)
         (vm_inject_irq (\<lambda>_ _ _. 0) vcpu16_sgi2 16 2) = Some True"
proof -
  have t: "sgir_target_list seventeen_vcpu_vm 0 (fault_get_data (sgir_write 0x01000002)) \<noteq> None"
    by (simp add: sgir_target_list_alt sgir_others_mode fault_get_data_def sgir_write_def)
  have n: "filter (\<lambda>k. bit (tgt :: u16) k \<and> is_vcpu_online seventeen_vcpu_vm k)
             [0..<num_vcpus seventeen_vcpu_vm] = []" for tgt
    by (auto simp: seventeen_vcpu_vm_def filter_empty_conv dest: bit_imp_le_length)
  have r: "RANGE32 GIC_DIST_SGIR GIC_DIST_SGIR 0xF00" by (simp add: RANGE32_def)
  from t obtain tgt where
    tg: "sgir_target_list seventeen_vcpu_vm 0 (fault_get_data (sgir_write 0x01000002)) = Some tgt"
    by auto
  have w: "vgic_dist_write_reg (\<lambda>_ _ _. 0) seventeen_vcpu_vm vcpu16_sgi2 0 0xF00
             (sgir_write 0x01000002) = Some vcpu16_sgi2"
    unfolding write_reg_sgir [OF r] tg option.case sgir_forward_inject_each n by simp
  have p: "is_pending (registers vcpu16_sgi2) 2 16 = False" using vcpu16_facts(4) by simp
  have b: "bit (0xFFFE :: u16) 16 = False" by (simp add: bit_iff_odd_drop_bit)
  from seventeen_claimed_mask seventeen_claimed_bit seventeen_online seventeen_target_list b w p
    vcpu16_sgi2_inject
  show ?thesis by blast
qed

end
